theory Spec2Isabelle
  imports Main
begin

section \<open>Data model of \<^verbatim>\<open>src/main.py\<close>\<close>

text \<open>
  The program keeps three MongoDB collections (users, credentials, numbers) and talks to
  two collaborators: the Twilio client and the Telegram bot. A collection is a list of
  documents in insertion order; \<^verbatim>\<open>find_one\<close> returns the first match. A
  \<^verbatim>\<open>datetime\<close> is an integer count of microseconds. Python integers are \<open>int\<close>.
  MongoDB holds a datetime as whole milliseconds: the driver truncates every datetime it
  writes to a collection and every datetime it sends as the bound of a query.
\<close>

type_synonym timestamp = int

text \<open>Class \<^verbatim>\<open>User\<close>; a user document holds the same six fields (\<^verbatim>\<open>to_dict\<close>).\<close>

record user =
  telegram_id :: int
  username :: "string option"
  is_active :: bool
  subscription_type :: "string option"
  subscription_end :: "timestamp option"
  current_sid_index :: int

text \<open>The document written by \<^verbatim>\<open>save_credential\<close>.\<close>

record credential =
  cred_telegram_id :: int
  sid :: string
  auth_token :: string
  is_valid :: bool
  added_on :: timestamp

text \<open>The document written by \<^verbatim>\<open>buy_number\<close>.\<close>

record number_doc =
  number :: string
  twilio_sid :: string
  user_id :: int
  bought_on :: timestamp

text \<open>Exceptions the modelled code can meet, and \<^verbatim>\<open>str(e)\<close> of a caught one.\<close>

datatype py_error = TwilioRestException string | ZeroDivisionError | IndexError | KeyError

text \<open>
  \<open>Lit s\<close> is the string \<open>s\<close>, \<open>StrExc e\<close> is \<^verbatim>\<open>str(e)\<close> and \<open>ErrorStr e\<close> is
  \<^verbatim>\<open>f"Error: {str(e)}"\<close>.
\<close>

datatype pystr = Lit string | StrExc py_error | ErrorStr py_error

text \<open>
  Texts the bot sends, by the statement that sends them, with the values formatted in.
\<close>

datatype message =
    MsgUserNotFound
  | MsgNoCredentials
  | MsgPurchasing string
  | MsgPurchased string pystr
  | MsgPurchaseFailedAdmin pystr
  | MsgPurchaseFailed
  | MsgBuyErrorToAdmins int string pystr
  | MsgSubscriptionExpired
  | MsgAddCredentials
  | MsgServiceUnavailable
  | MsgNoCredentialsToAdmins int
  | MsgLoading
  | MsgFetchFailed "pystr option"
  | MsgNoNumbers
  | MsgFetchErrorToAdmins int "pystr option"
  | MsgNumbers "string list" string
  | MsgNotPurchased
  | MsgChecking string
  | MsgLatestSms string pystr
  | MsgNoSuchNumber
  | MsgNoPermission
  | MsgDeleting string
  | MsgDeleted string
  | MsgDeleteFailedAdmin "pystr option"
  | MsgDeleteFailed
  | MsgDeleteErrorToAdmins int string "pystr option"
  | MsgExpiredNotice
  | MsgSomethingWrong
  | MsgThankYou

text \<open>Calls made to the collaborators, in the order they are made.\<close>

datatype event =
    TwilioCreate string string string
  | TwilioDelete string string string
  | TwilioList string string
  | TwilioMessages string string string
  | SendMessage int message
  | EditMessage int message
  | SendPhoto int int string
  | AnswerCallbackQuery
  | LogError

text \<open>
  The state the program reads and writes: the three collections and the log of calls.
\<close>

record world =
  users_collection :: "user list"
  credentials_collection :: "credential list"
  numbers_collection :: "number_doc list"
  calls :: "event list"

text \<open>
  What the collaborators answer. A Twilio call returns its value or raises; sending a
  message may raise for a given recipient wherever the source wraps the send in
  \<^verbatim>\<open>try\<close>; writing a user document may raise for a given user in the sweep, whose
  outer handler catches it. Other sends and writes are taken to succeed.
\<close>

record env =
  now :: timestamp
  twilio_create :: "string \<Rightarrow> string \<Rightarrow> string \<Rightarrow> py_error + string"
  twilio_delete :: "string \<Rightarrow> string \<Rightarrow> string \<Rightarrow> py_error option"
  twilio_list :: "string \<Rightarrow> string \<Rightarrow> py_error + string list"
  twilio_messages :: "string \<Rightarrow> string \<Rightarrow> string \<Rightarrow> py_error + string list"
  send_fails :: "int \<Rightarrow> bool"
  save_fails :: "int \<Rightarrow> bool"

definition log_event :: "event \<Rightarrow> world \<Rightarrow> world" where
  "log_event e w = w\<lparr>calls := calls w @ [e]\<rparr>"

section \<open>Constants\<close>

definition BOSS_ID :: int where
  "BOSS_ID = 6917210823"

definition ADMIN_IDS :: "int list" where
  "ADMIN_IDS = [6917210457, 6917210899, 4779333778]"

definition ALL_ADMIN_IDS :: "int list" where
  "ALL_ADMIN_IDS = [BOSS_ID] @ ADMIN_IDS"

record plan =
  plan_name :: string
  price :: string
  duration :: int

definition SUBSCRIPTION_PLANS :: "(string \<times> plan) list" where
  "SUBSCRIPTION_PLANS =
     [(''6_hours'', \<lparr>plan_name = ''6 hours'', price = ''$0.50'', duration = 6\<rparr>),
      (''1_day'', \<lparr>plan_name = ''1 day'', price = ''$1.2'', duration = 24\<rparr>),
      (''7_days'', \<lparr>plan_name = ''7 days'', price = ''$5'', duration = 168\<rparr>),
      (''15_days'', \<lparr>plan_name = ''15 days'', price = ''$10'', duration = 360\<rparr>)]"

definition is_admin :: "int \<Rightarrow> bool" where
  "is_admin uid = (uid \<in> set ALL_ADMIN_IDS)"

section \<open>Python primitives\<close>

text \<open>\<^verbatim>\<open>xs[i]\<close>: a negative index counts from the end, out of range raises.\<close>

definition py_index :: "'a list \<Rightarrow> int \<Rightarrow> py_error + 'a" where
  "py_index xs i =
     (if 0 \<le> i \<and> i < int (length xs) then Inr (xs ! nat i)
      else if i < 0 \<and> - int (length xs) \<le> i then Inr (xs ! nat (int (length xs) + i))
      else Inl IndexError)"

text \<open>\<^verbatim>\<open>a % b\<close>: floored, and raises on a zero divisor.\<close>

definition py_mod :: "int \<Rightarrow> int \<Rightarrow> py_error + int" where
  "py_mod a b = (if b = 0 then Inl ZeroDivisionError else Inr (a mod b))"

text \<open>\<^verbatim>\<open>timedelta(hours=h)\<close> in microseconds.\<close>

definition timedelta_hours :: "int \<Rightarrow> int" where
  "timedelta_hours h = h * 3600000000"

text \<open>A \<^verbatim>\<open>datetime\<close> as BSON encodes it: truncated to whole milliseconds.\<close>

definition bson_datetime :: "timestamp \<Rightarrow> timestamp" where
  "bson_datetime t = (t div 1000) * 1000"

text \<open>\<^verbatim>\<open>s.split(c)\<close> for a one-character separator.\<close>

fun py_split :: "char \<Rightarrow> string \<Rightarrow> string list" where
  "py_split c [] = [[]]"
| "py_split c (x # xs) =
     (if x = c then [] # py_split c xs
      else (case py_split c xs of
              [] \<Rightarrow> [[x]]
            | p # ps \<Rightarrow> (x # p) # ps))"

text \<open>Truth value of an optional string: \<^verbatim>\<open>None\<close> and \<^verbatim>\<open>""\<close> are false.\<close>

fun falsy :: "string option \<Rightarrow> bool" where
  "falsy None = True"
| "falsy (Some s) = (s = [])"

section \<open>Account ledger\<close>

definition get_user :: "world \<Rightarrow> int \<Rightarrow> user option" where
  "get_user w tid = find (\<lambda>d. telegram_id d = tid) (users_collection w)"

text \<open>
  \<^verbatim>\<open>user.to_dict()\<close> as the collection stores it: the expiry is the only datetime
  of the six fields.
\<close>

definition bson_user :: "user \<Rightarrow> user" where
  "bson_user u = u\<lparr>subscription_end := map_option bson_datetime (subscription_end u)\<rparr>"

text \<open>
  \<^verbatim>\<open>update_one(filter, {"$set": doc}, upsert=True)\<close>: the first document with the
  user's id takes the six fields; without one, the document is inserted.
\<close>

fun update_one_upsert :: "user \<Rightarrow> user list \<Rightarrow> user list" where
  "update_one_upsert u [] = [u]"
| "update_one_upsert u (d # ds) =
     (if telegram_id d = telegram_id u then u # ds else d # update_one_upsert u ds)"

definition save_user :: "user \<Rightarrow> world \<Rightarrow> world" where
  "save_user u w =
     w\<lparr>users_collection := update_one_upsert (bson_user u) (users_collection w)\<rparr>"

definition is_subscription_active :: "env \<Rightarrow> user \<Rightarrow> bool" where
  "is_subscription_active e u =
     (case subscription_end u of None \<Rightarrow> False | Some t \<Rightarrow> now e < t)"

text \<open>
  \<^verbatim>\<open>update_subscription\<close>: an unknown plan key raises \<^verbatim>\<open>KeyError\<close> before anything
  is written. The mutated user object is returned with the state; it keeps the expiry at
  microseconds, while the document \<^verbatim>\<open>save_user\<close> writes holds it at milliseconds.
\<close>

definition update_subscription :: "env \<Rightarrow> user \<Rightarrow> string \<Rightarrow> world \<Rightarrow> py_error + (user \<times> world)" where
  "update_subscription e u plan_key w =
     (case map_of SUBSCRIPTION_PLANS plan_key of
        None \<Rightarrow> Inl KeyError
      | Some p \<Rightarrow>
          (let u' = u\<lparr>subscription_type := Some (plan_name p),
                       subscription_end := Some (now e + timedelta_hours (duration p)),
                       is_active := True\<rparr>
           in Inr (u', save_user u' w)))"

section \<open>Credential rotator\<close>

definition get_valid_credentials :: "world \<Rightarrow> credential list" where
  "get_valid_credentials w = filter is_valid (credentials_collection w)"

text \<open>
  \<^verbatim>\<open>get_next_sid\<close> returns the pair \<^verbatim>\<open>(sid, auth_token)\<close>, or \<^verbatim>\<open>(None, None)\<close>
  without credentials. It mutates the user object it is given (the caller keeps using
  it), so the object is returned too. The index expression raises only for a negative
  cursor below \<open>- len\<close>, where nothing has been written.
\<close>

definition get_next_sid ::
  "user \<Rightarrow> world \<Rightarrow> py_error + ((string option \<times> string option) \<times> user \<times> world)" where
  "get_next_sid u w =
     (let credentials = get_valid_credentials w in
      if credentials = [] then Inr ((None, None), u, w)
      else
        (let u1 = (if current_sid_index u \<ge> int (length credentials)
                   then u\<lparr>current_sid_index := 0\<rparr> else u);
             w1 = (if current_sid_index u \<ge> int (length credentials)
                   then save_user u1 w else w)
         in case py_index credentials (current_sid_index u1) of
              Inl err \<Rightarrow> Inl err
            | Inr selected_cred \<Rightarrow>
                Inr ((Some (sid selected_cred), Some (auth_token selected_cred)), u1, w1)))"

section \<open>Inventory broker\<close>

text \<open>
  The filtering loop of \<^verbatim>\<open>get_canada_numbers\<close>: a number that passes is appended,
  and the loop breaks once the result has reached the limit.
\<close>

fun filter_loop :: "string set \<Rightarrow> string list \<Rightarrow> int \<Rightarrow> string list \<Rightarrow> string list \<Rightarrow> string list" where
  "filter_loop used_numbers exclude_numbers limit [] result = result"
| "filter_loop used_numbers exclude_numbers limit (n # available_numbers) result =
     (if n \<notin> used_numbers \<and> n \<notin> set exclude_numbers
      then (if int (length (result @ [n])) \<ge> limit then result @ [n]
            else filter_loop used_numbers exclude_numbers limit available_numbers (result @ [n]))
      else filter_loop used_numbers exclude_numbers limit available_numbers result)"

definition get_canada_numbers ::
  "env \<Rightarrow> string \<Rightarrow> string \<Rightarrow> int \<Rightarrow> string list option \<Rightarrow> world
     \<Rightarrow> (string list \<times> pystr option) \<times> world" where
  "get_canada_numbers e s tok limit exclude_numbers w =
     (let exclude_numbers' = (case exclude_numbers of None \<Rightarrow> [] | Some xs \<Rightarrow> xs);
          w1 = log_event (TwilioList s tok) w
      in case twilio_list e s tok of
           Inl err \<Rightarrow> (([], Some (StrExc err)), w1)
         | Inr available_numbers \<Rightarrow>
             (let used_numbers = set (map number (numbers_collection w1))
              in ((filter_loop used_numbers exclude_numbers' limit available_numbers [], None), w1)))"

definition buy_number ::
  "env \<Rightarrow> string \<Rightarrow> string \<Rightarrow> string \<Rightarrow> int \<Rightarrow> world \<Rightarrow> (bool \<times> pystr) \<times> world" where
  "buy_number e s tok phone_number uid w =
     (let w1 = log_event (TwilioCreate s tok phone_number) w
      in case twilio_create e s tok phone_number of
           Inl err \<Rightarrow> ((False, StrExc err), w1)
         | Inr purchased_sid \<Rightarrow>
             (let w2 = w1\<lparr>numbers_collection := numbers_collection w1 @
                          [\<lparr>number = phone_number, twilio_sid = purchased_sid,
                            user_id = uid, bought_on = bson_datetime (now e)\<rparr>]\<rparr>
              in case get_user w2 uid of
                   None \<Rightarrow> ((True, Lit purchased_sid), w2)
                 | Some u \<Rightarrow>
                     (case py_mod (current_sid_index u + 1)
                             (int (length (get_valid_credentials w2))) of
                        Inl err \<Rightarrow> ((False, StrExc err), w2)
                      | Inr c \<Rightarrow>
                          ((True, Lit purchased_sid),
                           save_user (u\<lparr>current_sid_index := c\<rparr>) w2))))"

definition find_one_number :: "world \<Rightarrow> string \<Rightarrow> number_doc option" where
  "find_one_number w n = find (\<lambda>d. number d = n) (numbers_collection w)"

text \<open>\<^verbatim>\<open>delete_one\<close> removes the first matching document.\<close>

fun delete_one :: "string \<Rightarrow> number_doc list \<Rightarrow> number_doc list" where
  "delete_one n [] = []"
| "delete_one n (d # ds) = (if number d = n then ds else d # delete_one n ds)"

definition delete_number ::
  "env \<Rightarrow> string \<Rightarrow> string \<Rightarrow> string \<Rightarrow> world \<Rightarrow> (bool \<times> pystr option) \<times> world" where
  "delete_number e s tok n w =
     (case find_one_number w n of
        None \<Rightarrow> ((False, Some (Lit ''Number not found in database'')), w)
      | Some number_doc \<Rightarrow>
          (let w1 = log_event (TwilioDelete s tok (twilio_sid number_doc)) w
           in case twilio_delete e s tok (twilio_sid number_doc) of
                Some err \<Rightarrow> ((False, Some (StrExc err)), w1)
              | None \<Rightarrow>
                  ((True, None),
                   w1\<lparr>numbers_collection := delete_one n (numbers_collection w1)\<rparr>)))"

definition check_sms :: "env \<Rightarrow> string \<Rightarrow> string \<Rightarrow> string \<Rightarrow> world \<Rightarrow> pystr \<times> world" where
  "check_sms e s tok n w =
     (let w1 = log_event (TwilioMessages s tok n) w
      in case twilio_messages e s tok n of
           Inl err \<Rightarrow> (ErrorStr err, w1)
         | Inr [] \<Rightarrow> (Lit ''No messages found'', w1)
         | Inr (m # ms) \<Rightarrow> (Lit m, w1))"

section \<open>Expiry sweeper\<close>

text \<open>
  One pass of the \<^verbatim>\<open>while True\<close> loop of \<^verbatim>\<open>check_subscriptions\<close>. The query selects
  the documents with \<^verbatim>\<open>is_active\<close> true and \<^verbatim>\<open>subscription_end\<close> below the current
  time (a missing date never matches \<^verbatim>\<open>$lt\<close>). The comparison runs in the store, on
  the stored expiry and the bound as whole milliseconds. A failed notification is caught inside
  the loop and logged; a failed write leaves the loop and is logged by the outer handler.
\<close>

definition expired_query :: "env \<Rightarrow> user \<Rightarrow> bool" where
  "expired_query e d =
     (is_active d \<and>
      (case subscription_end d of
         None \<Rightarrow> False
       | Some t \<Rightarrow> bson_datetime t < bson_datetime (now e)))"

fun sweep_loop :: "env \<Rightarrow> user list \<Rightarrow> world \<Rightarrow> world" where
  "sweep_loop e [] w = w"
| "sweep_loop e (user_data # expired_users) w =
     (let u = user_data\<lparr>is_active := False\<rparr>
      in if save_fails e (telegram_id u) then log_event LogError w
         else
           (let w1 = save_user u w;
                w2 = log_event (SendMessage (telegram_id u) MsgExpiredNotice) w1;
                w3 = (if send_fails e (telegram_id u) then log_event LogError w2 else w2)
            in sweep_loop e expired_users w3))"

definition check_subscriptions_pass :: "env \<Rightarrow> world \<Rightarrow> world" where
  "check_subscriptions_pass e w =
     sweep_loop e (filter (expired_query e) (users_collection w)) w"

section \<open>Conversation handlers\<close>

text \<open>Class \<^verbatim>\<open>BotStates\<close>, and what the FSM storage keeps for one conversation.\<close>

datatype BotStates =
    BotStates_start
  | BotStates_awaiting_payment
  | BotStates_awaiting_approval
  | BotStates_main_menu
  | BotStates_load_credential
  | BotStates_browse_numbers

record session =
  fsm_state :: "BotStates option"
  selected_plan :: "string option"
  current_numbers :: "string list option"

text \<open>
  The loop \<^verbatim>\<open>for admin_id in ALL_ADMIN_IDS\<close> with its \<^verbatim>\<open>try\<close>: a failed send is logged.
\<close>

fun notify_loop :: "env \<Rightarrow> message \<Rightarrow> int list \<Rightarrow> world \<Rightarrow> world" where
  "notify_loop e m [] w = w"
| "notify_loop e m (admin_id # ids) w =
     (let w1 = log_event (SendMessage admin_id m) w
      in notify_loop e m ids (if send_fails e admin_id then log_event LogError w1 else w1))"

fun photo_loop :: "env \<Rightarrow> int \<Rightarrow> string \<Rightarrow> int list \<Rightarrow> world \<Rightarrow> world" where
  "photo_loop e uid pname [] w = w"
| "photo_loop e uid pname (admin_id # ids) w =
     (let w1 = log_event (SendPhoto admin_id uid pname) w
      in photo_loop e uid pname ids (if send_fails e admin_id then log_event LogError w1 else w1))"

text \<open>Truth value of \<^verbatim>\<open>error\<close>, which is \<^verbatim>\<open>None\<close> or the text of an exception.\<close>

fun truthy_error :: "pystr option \<Rightarrow> bool" where
  "truthy_error None = False"
| "truthy_error (Some (Lit s)) = (s \<noteq> [])"
| "truthy_error (Some (StrExc err)) = True"
| "truthy_error (Some (ErrorStr err)) = True"

text \<open>
  A handler takes the sender's id, the callback data and the conversation's session, and
  returns the session and state it leaves, or the exception that escapes it.
\<close>

definition browse_numbers :: "env \<Rightarrow> int \<Rightarrow> session \<Rightarrow> world \<Rightarrow> py_error + (session \<times> world)" where
  "browse_numbers e uid ss w0 =
     (let w = log_event AnswerCallbackQuery w0
      in case get_user w uid of
           None \<Rightarrow> Inr (ss, log_event (SendMessage uid MsgUserNotFound) w)
         | Some u \<Rightarrow>
             if \<not> is_admin uid \<and> (\<not> is_active u \<or> \<not> is_subscription_active e u)
             then Inr (ss\<lparr>fsm_state := Some BotStates_start\<rparr>,
                       log_event (SendMessage uid MsgSubscriptionExpired) w)
             else
               (case get_next_sid u w of
                  Inl err \<Rightarrow> Inl err
                | Inr ((s, tok), u1, w1) \<Rightarrow>
                    if falsy s \<or> falsy tok
                    then
                      (if is_admin uid
                       then Inr (ss, log_event (SendMessage uid MsgAddCredentials) w1)
                       else Inr (ss, notify_loop e (MsgNoCredentialsToAdmins uid) ALL_ADMIN_IDS
                                       (log_event (SendMessage uid MsgServiceUnavailable) w1)))
                    else
                      (let w2 = log_event (SendMessage uid MsgLoading) w1
                       in case get_canada_numbers e (the s) (the tok) 15 None w2 of
                            ((numbers, error), w3) \<Rightarrow>
                              if truthy_error error \<or> numbers = []
                              then
                                (let error_message =
                                       (if truthy_error error then MsgFetchFailed error
                                        else MsgNoNumbers)
                                 in if is_admin uid
                                    then Inr (ss, log_event (EditMessage uid error_message) w3)
                                    else Inr (ss, notify_loop e (MsgFetchErrorToAdmins uid error)
                                                   ALL_ADMIN_IDS
                                                   (log_event (EditMessage uid MsgServiceUnavailable) w3)))
                              else
                                Inr (ss\<lparr>current_numbers := Some numbers,
                                         fsm_state := Some BotStates_browse_numbers\<rparr>,
                                     log_event
                                       (EditMessage uid (MsgNumbers (take 15 numbers) (hd numbers)))
                                       w3))))"

definition buy_number_callback ::
  "env \<Rightarrow> int \<Rightarrow> string \<Rightarrow> session \<Rightarrow> world \<Rightarrow> py_error + (session \<times> world)" where
  "buy_number_callback e uid data ss w0 =
     (let w = log_event AnswerCallbackQuery w0
      in case py_index (py_split CHR ''_'' data) 1 of
           Inl err \<Rightarrow> Inl err
         | Inr n \<Rightarrow>
             (case get_user w uid of
                None \<Rightarrow> Inr (ss, log_event (SendMessage uid MsgUserNotFound) w)
              | Some u \<Rightarrow>
                  (case get_next_sid u w of
                     Inl err \<Rightarrow> Inl err
                   | Inr ((s, tok), u1, w1) \<Rightarrow>
                       if falsy s \<or> falsy tok
                       then Inr (ss, log_event (SendMessage uid MsgNoCredentials) w1)
                       else
                         (let w2 = log_event (SendMessage uid (MsgPurchasing n)) w1
                          in case buy_number e (the s) (the tok) n uid w2 of
                               ((success, result), w3) \<Rightarrow>
                                 if success
                                 then browse_numbers e uid ss
                                        (log_event (EditMessage uid (MsgPurchased n result)) w3)
                                 else if is_admin uid
                                 then Inr (ss, log_event (EditMessage uid (MsgPurchaseFailedAdmin result)) w3)
                                 else Inr (ss, notify_loop e (MsgBuyErrorToAdmins uid n result) ALL_ADMIN_IDS
                                                (log_event (EditMessage uid MsgPurchaseFailed) w3))))))"

definition check_otp_callback ::
  "env \<Rightarrow> int \<Rightarrow> string \<Rightarrow> session \<Rightarrow> world \<Rightarrow> py_error + (session \<times> world)" where
  "check_otp_callback e uid data ss w0 =
     (let w = log_event AnswerCallbackQuery w0
      in case py_index (py_split CHR ''_'' data) 1 of
           Inl err \<Rightarrow> Inl err
         | Inr n \<Rightarrow>
             (case get_user w uid of
                None \<Rightarrow> Inr (ss, log_event (SendMessage uid MsgUserNotFound) w)
              | Some u \<Rightarrow>
                  (case get_next_sid u w of
                     Inl err \<Rightarrow> Inl err
                   | Inr ((s, tok), u1, w1) \<Rightarrow>
                       if falsy s \<or> falsy tok
                       then Inr (ss, log_event (SendMessage uid MsgNoCredentials) w1)
                       else
                         (case find_one_number w1 n of
                            None \<Rightarrow> Inr (ss, log_event (SendMessage uid MsgNotPurchased) w1)
                          | Some number_doc \<Rightarrow>
                              (let w2 = log_event (SendMessage uid (MsgChecking n)) w1
                               in case check_sms e (the s) (the tok) n w2 of
                                    (sms_content, w3) \<Rightarrow>
                                      Inr (ss, log_event (EditMessage uid (MsgLatestSms n sms_content)) w3))))))"

definition delete_number_callback ::
  "env \<Rightarrow> int \<Rightarrow> string \<Rightarrow> session \<Rightarrow> world \<Rightarrow> py_error + (session \<times> world)" where
  "delete_number_callback e uid data ss w0 =
     (let w = log_event AnswerCallbackQuery w0
      in case py_index (py_split CHR ''_'' data) 1 of
           Inl err \<Rightarrow> Inl err
         | Inr n \<Rightarrow>
             (case find_one_number w n of
                None \<Rightarrow> Inr (ss, log_event (SendMessage uid MsgNoSuchNumber) w)
              | Some number_doc \<Rightarrow>
                  if user_id number_doc \<noteq> uid \<and> \<not> is_admin uid
                  then Inr (ss, log_event (SendMessage uid MsgNoPermission) w)
                  else
                    (case get_user w uid of
                       None \<Rightarrow> Inr (ss, log_event (SendMessage uid MsgUserNotFound) w)
                     | Some u \<Rightarrow>
                         (case get_next_sid u w of
                            Inl err \<Rightarrow> Inl err
                          | Inr ((s, tok), u1, w1) \<Rightarrow>
                              if falsy s \<or> falsy tok
                              then Inr (ss, log_event (SendMessage uid MsgNoCredentials) w1)
                              else
                                (let w2 = log_event (SendMessage uid (MsgDeleting n)) w1
                                 in case delete_number e (the s) (the tok) n w2 of
                                      ((success, error), w3) \<Rightarrow>
                                        if success
                                        then browse_numbers e uid ss
                                               (log_event (EditMessage uid (MsgDeleted n)) w3)
                                        else if is_admin uid
                                        then Inr (ss, log_event (EditMessage uid (MsgDeleteFailedAdmin error)) w3)
                                        else Inr (ss, notify_loop e (MsgDeleteErrorToAdmins uid n error)
                                                       ALL_ADMIN_IDS
                                                       (log_event (EditMessage uid MsgDeleteFailed) w3)))))))"

text \<open>
  \<^verbatim>\<open>process_payment_screenshot\<close>: the plan key is read from the session; a missing or
  empty one sends the error text and sets the state \<^verbatim>\<open>start\<close>. A key outside the plan
  table raises \<^verbatim>\<open>KeyError\<close>.
\<close>

definition process_payment_screenshot ::
  "env \<Rightarrow> int \<Rightarrow> session \<Rightarrow> world \<Rightarrow> py_error + (session \<times> world)" where
  "process_payment_screenshot e uid ss w =
     (let plan_key = selected_plan ss
      in if falsy plan_key
         then Inr (ss\<lparr>fsm_state := Some BotStates_start\<rparr>,
                   log_event (SendMessage uid MsgSomethingWrong) w)
         else
           (case map_of SUBSCRIPTION_PLANS (the plan_key) of
              None \<Rightarrow> Inl KeyError
            | Some p \<Rightarrow>
                Inr (ss\<lparr>fsm_state := Some BotStates_awaiting_approval\<rparr>,
                     photo_loop e uid (plan_name p) ALL_ADMIN_IDS
                       (log_event (SendMessage uid MsgThankYou) w))))"

section \<open>Observations and runs\<close>

text \<open>The upstream purchase calls of a log, in order: credential and number.\<close>

fun purchase_calls :: "event list \<Rightarrow> (string \<times> string \<times> string) list" where
  "purchase_calls [] = []"
| "purchase_calls (TwilioCreate s tok n # evs) = (s, tok, n) # purchase_calls evs"
| "purchase_calls (ev # evs) = purchase_calls evs"

text \<open>
  Every valid credential has a non-empty sid and token, so that the handlers' test
  \<^verbatim>\<open>if not sid or not auth_token\<close> lets it pass (\<^verbatim>\<open>process_credential\<close> saves two
  words of a message, which are never empty).
\<close>

definition usable :: "credential list \<Rightarrow> bool" where
  "usable cs = (cs \<noteq> [] \<and> list_all (\<lambda>c. sid c \<noteq> [] \<and> auth_token c \<noteq> []) cs)"

text \<open>The index a lookup selects with: the cursor, or 0 for a cursor beyond the set.\<close>

definition selected_index :: "credential list \<Rightarrow> int \<Rightarrow> nat" where
  "selected_index cs c = (if int (length cs) \<le> c then 0 else nat c)"

text \<open>Consecutive purchases by one subscriber: one \<^verbatim>\<open>buy_\<close> callback after another.\<close>

fun buy_run :: "env \<Rightarrow> int \<Rightarrow> string list \<Rightarrow> session \<Rightarrow> world \<Rightarrow> py_error + (session \<times> world)" where
  "buy_run e uid [] ss w = Inr (ss, w)"
| "buy_run e uid (n # ns) ss w =
     (case buy_number_callback e uid (''buy_'' @ n) ss w of
        Inl err \<Rightarrow> Inl err
      | Inr (ss', w') \<Rightarrow> buy_run e uid ns ss' w')"

text \<open>
  The rotation in the specification's words: select \<^verbatim>\<open>credentials[cursor]\<close>, then
  advance the cursor to \<^verbatim>\<open>(cursor + 1) mod count\<close>.
\<close>

fun round_robin :: "credential list \<Rightarrow> nat \<Rightarrow> string list \<Rightarrow> (string \<times> string \<times> string) list" where
  "round_robin cs i [] = []"
| "round_robin cs i (n # ns) =
     (sid (cs ! i), auth_token (cs ! i), n) # round_robin cs ((i + 1) mod length cs) ns"

text \<open>The text \<^verbatim>\<open>check_sms\<close> returns.\<close>

definition sms_content :: "env \<Rightarrow> string \<Rightarrow> string \<Rightarrow> string \<Rightarrow> pystr" where
  "sms_content e s tok n =
     (case twilio_messages e s tok n of
        Inl err \<Rightarrow> ErrorStr err
      | Inr [] \<Rightarrow> Lit ''No messages found''
      | Inr (m # ms) \<Rightarrow> Lit m)"

text \<open>
  The document the sweep writes for a selected document: the flag is false, and the
  expiry is written as the store holds it.
\<close>

definition deactivated :: "user \<Rightarrow> user" where
  "deactivated d = bson_user (d\<lparr>is_active := False\<rparr>)"

text \<open>What one selected subscriber adds to the log: the notice, and the logged failure.\<close>

definition notices :: "env \<Rightarrow> user list \<Rightarrow> event list" where
  "notices e sel =
     concat (map (\<lambda>u. SendMessage (telegram_id u) MsgExpiredNotice #
                        (if send_fails e (telegram_id u) then [LogError] else [])) sel)"

text \<open>The selected subscribers written before the first write that fails.\<close>

definition saved :: "env \<Rightarrow> user list \<Rightarrow> user list" where
  "saved e sel = takeWhile (\<lambda>u. \<not> save_fails e (telegram_id u)) sel"

section \<open>Example inputs\<close>

text \<open>Concrete collaborators and states on which the properties below are evaluated.\<close>

definition example_env :: env where
  "example_env =
     \<lparr>now = 200000,
      twilio_create = (\<lambda>s tok n. Inr (''PN'' @ n)),
      twilio_delete = (\<lambda>s tok r. None),
      twilio_list = (\<lambda>s tok. Inr [''+1555A'', ''+1555B'', ''+1555C'']),
      twilio_messages = (\<lambda>s tok n. Inr [''code 1234'']),
      send_fails = (\<lambda>a. False),
      save_fails = (\<lambda>a. False)\<rparr>"

definition example_user :: user where
  "example_user =
     \<lparr>telegram_id = 1, username = Some ''alice'', is_active = True,
      subscription_type = Some ''6 hours'', subscription_end = Some 1000000,
      current_sid_index = 0\<rparr>"

definition cred1 :: credential where
  "cred1 = \<lparr>cred_telegram_id = 1, sid = ''AC1'', auth_token = ''tok1'', is_valid = True,
            added_on = 0\<rparr>"

definition cred2 :: credential where
  "cred2 = \<lparr>cred_telegram_id = 2, sid = ''AC2'', auth_token = ''tok2'', is_valid = True,
            added_on = 0\<rparr>"

definition world_no_valid_credentials :: world where
  "world_no_valid_credentials =
     \<lparr>users_collection = [example_user],
      credentials_collection = [cred1\<lparr>is_valid := False\<rparr>],
      numbers_collection = [],
      calls = []\<rparr>"

definition world_two_credentials :: world where
  "world_two_credentials =
     \<lparr>users_collection = [example_user],
      credentials_collection = [cred1, cred2],
      numbers_collection = [],
      calls = []\<rparr>"

definition number_A :: number_doc where
  "number_A = \<lparr>number = ''+1555A'', twilio_sid = ''PN123'', user_id = 2, bought_on = 50000\<rparr>"

definition world_number_A :: world where
  "world_number_A =
     \<lparr>users_collection = [example_user],
      credentials_collection = [cred1, cred2],
      numbers_collection = [number_A],
      calls = []\<rparr>"

definition env_release_fails :: env where
  "env_release_fails =
     example_env\<lparr>twilio_delete := (\<lambda>s tok r. Some (TwilioRestException ''HTTP 404''))\<rparr>"

definition session0 :: session where
  "session0 = \<lparr>fsm_state = Some BotStates_browse_numbers, selected_plan = None,
               current_numbers = Some [''+1555A'', ''+1555B'', ''+1555C'']\<rparr>"

definition env_purchase_rejected :: env where
  "env_purchase_rejected =
     example_env\<lparr>twilio_create := (\<lambda>s tok n. Inl (TwilioRestException ''HTTP 400''))\<rparr>"

definition world_after_second_purchase :: world where
  "world_after_second_purchase =
     \<lparr>users_collection = [example_user\<lparr>current_sid_index := 1\<rparr>],
      credentials_collection = [cred1, cred2],
      numbers_collection =
        [number_A,
         \<lparr>number = ''+1555A'', twilio_sid = ''PN+1555A'', user_id = 1, bought_on = 200000\<rparr>],
      calls =
        [AnswerCallbackQuery, SendMessage 1 (MsgPurchasing ''+1555A''),
         TwilioCreate ''AC1'' ''tok1'' ''+1555A'',
         EditMessage 1 (MsgPurchased ''+1555A'' (Lit ''PN+1555A'')),
         AnswerCallbackQuery, SendMessage 1 MsgLoading,
         TwilioList ''AC2'' ''tok2'',
         EditMessage 1 (MsgNumbers [''+1555B'', ''+1555C''] ''+1555B'')]\<rparr>"

definition user_lapsed_1 :: user where
  "user_lapsed_1 = example_user\<lparr>subscription_end := Some 100000\<rparr>"

definition user_current_2 :: user where
  "user_current_2 = example_user\<lparr>telegram_id := 2, username := Some ''bob''\<rparr>"

definition user_lapsed_3 :: user where
  "user_lapsed_3 =
     example_user\<lparr>telegram_id := 3, username := Some ''carol'', subscription_end := Some 150000\<rparr>"

definition world_three_users :: world where
  "world_three_users =
     \<lparr>users_collection = [user_lapsed_1, user_current_2, user_lapsed_3],
      credentials_collection = [cred1, cred2],
      numbers_collection = [],
      calls = []\<rparr>"

definition env_send_fails :: env where
  "env_send_fails = example_env\<lparr>send_fails := (\<lambda>a. a = 1)\<rparr>"

definition env_save_fails :: env where
  "env_save_fails = example_env\<lparr>save_fails := (\<lambda>a. a = 3)\<rparr>"

definition user_just_lapsed :: user where
  "user_just_lapsed = example_user\<lparr>subscription_end := Some 1000\<rparr>"

definition world_just_lapsed :: world where
  "world_just_lapsed =
     \<lparr>users_collection = [user_just_lapsed],
      credentials_collection = [cred1, cred2],
      numbers_collection = [],
      calls = []\<rparr>"

definition env_just_after :: env where
  "env_just_after = example_env\<lparr>now := 1800\<rparr>"

definition new_user :: user where
  "new_user =
     \<lparr>telegram_id = 1, username = Some ''alice'', is_active = False,
      subscription_type = None, subscription_end = None, current_sid_index = 0\<rparr>"

definition world_new_user :: world where
  "world_new_user =
     \<lparr>users_collection = [new_user],
      credentials_collection = [cred1, cred2],
      numbers_collection = [],
      calls = []\<rparr>"

section \<open>Ledger and rotator lemmas\<close>

lemma find_update_one_upsert:
  "find (\<lambda>d. telegram_id d = telegram_id u) (update_one_upsert u ds) = Some u"
  by (induction ds) auto

lemma bson_user_simps [simp]:
  "telegram_id (bson_user u) = telegram_id u"
  "is_active (bson_user u) = is_active u"
  "current_sid_index (bson_user u) = current_sid_index u"
  "subscription_end (bson_user u) = map_option bson_datetime (subscription_end u)"
  "bson_user (u\<lparr>current_sid_index := c\<rparr>) = (bson_user u)\<lparr>current_sid_index := c\<rparr>"
  "bson_user (u\<lparr>is_active := b\<rparr>) = (bson_user u)\<lparr>is_active := b\<rparr>"
  by (simp_all add: bson_user_def)

lemma bson_datetime_idem [simp]: "bson_datetime (bson_datetime t) = bson_datetime t"
  by (simp add: bson_datetime_def)

lemma bson_user_idem [simp]: "bson_user (bson_user u) = bson_user u"
  by (simp add: bson_user_def option.map_comp comp_def)

lemma get_user_save_user:
  "telegram_id u = tid \<Longrightarrow> get_user (save_user u w) tid = Some (bson_user u)"
  using find_update_one_upsert [of "bson_user u" "users_collection w"]
  by (auto simp add: get_user_def save_user_def)

lemma update_one_upsert_ids:
  "set (map telegram_id (update_one_upsert u ds)) = insert (telegram_id u) (set (map telegram_id ds))"
  by (induction ds) auto

lemma save_user_keeps_ids_unique:
  "distinct (map telegram_id (users_collection w)) \<Longrightarrow>
   distinct (map telegram_id (users_collection (save_user u w)))"
proof -
  have "distinct (map telegram_id ds) \<Longrightarrow> distinct (map telegram_id (update_one_upsert v ds))"
    for ds v
    using update_one_upsert_ids [of v] by (induction ds) (auto simp: image_iff)
  then show "distinct (map telegram_id (users_collection w)) \<Longrightarrow>
    distinct (map telegram_id (users_collection (save_user u w)))"
    by (simp add: save_user_def)
qed

lemma get_valid_credentials_save_user [simp]:
  "get_valid_credentials (save_user u w) = get_valid_credentials w"
  by (simp add: get_valid_credentials_def save_user_def)

lemma get_valid_credentials_log_event [simp]:
  "get_valid_credentials (log_event ev w) = get_valid_credentials w"
  by (simp add: get_valid_credentials_def log_event_def)

section \<open>Credential lookup stays in range\<close>

text \<open>
  Claim C9. With a non-empty set of valid credentials, every lookup that returns selects
  with an index below the size of the set; a cursor at or beyond the size is reset to 0
  and written to the user's document before the selection; a cursor in range leaves the
  user and the state as they were; the pair returned is the credential at that index; and
  a lookup with a non-negative cursor always returns.
\<close>

theorem get_next_sid_in_range:
  assumes "get_valid_credentials w \<noteq> []"
  shows "(\<forall>r u' w'. get_next_sid u w = Inr (r, u', w') \<longrightarrow>
            current_sid_index u' < int (length (get_valid_credentials w'))
          \<and> get_valid_credentials w' = get_valid_credentials w
          \<and> (int (length (get_valid_credentials w)) \<le> current_sid_index u \<longrightarrow>
               current_sid_index u' = 0 \<and> get_user w' (telegram_id u) = Some (bson_user u'))
          \<and> (current_sid_index u < int (length (get_valid_credentials w)) \<longrightarrow> u' = u \<and> w' = w)
          \<and> (0 \<le> current_sid_index u' \<longrightarrow>
               r = (Some (sid (get_valid_credentials w ! nat (current_sid_index u'))),
                    Some (auth_token (get_valid_credentials w ! nat (current_sid_index u'))))))
       \<and> (0 \<le> current_sid_index u \<longrightarrow> (\<exists>r u' w'. get_next_sid u w = Inr (r, u', w')))"
  using assms
  by (auto simp: get_next_sid_def Let_def py_index_def get_user_save_user
      split: if_splits sum.splits)

theorem get_next_sid_in_range_witness:
  "get_valid_credentials world_two_credentials \<noteq> []
   \<and> get_next_sid (example_user\<lparr>current_sid_index := 5\<rparr>) world_two_credentials =
       Inr ((Some ''AC1'', Some ''tok1''), example_user,
            save_user example_user world_two_credentials)
   \<and> current_sid_index example_user < int (length (get_valid_credentials world_two_credentials))"
  using get_next_sid_in_range [of world_two_credentials "example_user\<lparr>current_sid_index := 5\<rparr>"]
  by (simp add: get_next_sid_def py_index_def get_valid_credentials_def save_user_def
      world_two_credentials_def example_user_def cred1_def cred2_def Let_def
      bson_user_def bson_datetime_def)

section \<open>Cursor advance without valid credentials\<close>

lemma buy_number_empty_set:
  assumes "get_valid_credentials w = []" and "get_user w uid = Some u"
    and "twilio_create e s tok n = Inr p"
  shows "buy_number e s tok n uid w =
           ((False, StrExc ZeroDivisionError),
            w\<lparr>numbers_collection := numbers_collection w @
                  [\<lparr>number = n, twilio_sid = p, user_id = uid, bought_on = bson_datetime (now e)\<rparr>],
              calls := calls w @ [TwilioCreate s tok n]\<rparr>)"
  using assms
  by (simp add: buy_number_def log_event_def get_user_def get_valid_credentials_def py_mod_def)

text \<open>
  Claim C2. The claim asks that a purchase whose cursor advance meets an empty credential
  set still returns success. In the code the modulo raises \<^verbatim>\<open>ZeroDivisionError\<close>, the
  blanket handler catches it, and \<^verbatim>\<open>buy_number\<close> returns \<^verbatim>\<open>(False, str(e))\<close> although
  the upstream purchase was made and the number document was inserted. The user's document
  (and so the cursor) is unchanged.
\<close>

theorem buy_number_zero_credentials_reports_failure:
  "buy_number example_env ''AC1'' ''tok1'' ''+1555B'' 1 world_no_valid_credentials =
     ((False, StrExc ZeroDivisionError),
      world_no_valid_credentials
        \<lparr>numbers_collection :=
           [\<lparr>number = ''+1555B'', twilio_sid = ''PN+1555B'', user_id = 1, bought_on = 200000\<rparr>],
         calls := [TwilioCreate ''AC1'' ''tok1'' ''+1555B'']\<rparr>)"
  by (simp add: buy_number_def log_event_def get_user_def get_valid_credentials_def py_mod_def
      example_env_def world_no_valid_credentials_def example_user_def cred1_def
      bson_datetime_def)

section \<open>Payment proof without a selected plan\<close>

text \<open>
  Claim C8. When the session holds no plan selection (the key is missing or empty),
  \<^verbatim>\<open>process_payment_screenshot\<close> sends the error text to the sender and nothing else,
  forwards nothing to the administrators, writes no collection, and sets the
  conversation state to \<^verbatim>\<open>start\<close>.
\<close>

theorem payment_proof_without_selection:
  assumes "falsy (selected_plan ss)"
  shows "process_payment_screenshot e uid ss w =
           Inr (ss\<lparr>fsm_state := Some BotStates_start\<rparr>,
                w\<lparr>calls := calls w @ [SendMessage uid MsgSomethingWrong]\<rparr>)"
  using assms by (simp add: process_payment_screenshot_def log_event_def)

theorem payment_proof_without_selection_witness:
  "falsy (selected_plan \<lparr>fsm_state = Some BotStates_awaiting_payment, selected_plan = None,
                          current_numbers = None\<rparr>)
   \<and> process_payment_screenshot example_env 1
        \<lparr>fsm_state = Some BotStates_awaiting_payment, selected_plan = None,
          current_numbers = None\<rparr> world_two_credentials =
       Inr (\<lparr>fsm_state = Some BotStates_start, selected_plan = None, current_numbers = None\<rparr>,
            world_two_credentials\<lparr>calls := [SendMessage 1 MsgSomethingWrong]\<rparr>)"
  using payment_proof_without_selection
    [of "\<lparr>fsm_state = Some BotStates_awaiting_payment, selected_plan = None,
          current_numbers = None\<rparr>" example_env 1 world_two_credentials]
  by (simp add: world_two_credentials_def)

section \<open>Candidate list\<close>

lemma filter_loop_acc:
  "int (length acc) < limit \<Longrightarrow>
   filter_loop U X limit ups acc =
     acc @ take (nat limit - length acc) (filter (\<lambda>n. n \<notin> U \<and> n \<notin> set X) ups)"
proof (induction ups arbitrary: acc)
  case Nil
  then show ?case by simp
next
  case (Cons n ups)
  show ?case
  proof (cases "n \<notin> U \<and> n \<notin> set X")
    case False
    then show ?thesis using Cons by auto
  next
    case True
    show ?thesis
    proof (cases "int (length (acc @ [n])) \<ge> limit")
      case full: True
      with Cons.prems have "nat limit - length acc = 1" by auto
      with True full show ?thesis by simp
    next
      case room: False
      then have "int (length (acc @ [n])) < limit" by simp
      from Cons.IH [OF this] True room Cons.prems show ?thesis
        by (auto simp: take_Cons' Suc_diff_le nat_less_iff split: nat.splits)
    qed
  qed
qed

lemma filter_loop_nonpositive:
  "limit \<le> 0 \<Longrightarrow>
   filter_loop U X limit ups [] = take 1 (filter (\<lambda>n. n \<notin> U \<and> n \<notin> set X) ups)"
  by (induction ups) auto

text \<open>
  Claim C5, as amended. For a desired count of at least 1 and an upstream call that returns
  a sequence, the numbers returned are the upstream sequence without the numbers of the
  numbers collection and without the excluded numbers, in upstream order, cut to the
  desired count, and no error is returned. In the scenario of the claim (the collection
  holds +1555A, upstream returns A, B, C, the desired count is 2) the result is B, C.
\<close>

theorem get_canada_numbers_filters:
  assumes "1 \<le> limit" and "twilio_list e s tok = Inr ups"
  shows "fst (get_canada_numbers e s tok limit ex w) =
           (take (nat limit)
              (filter (\<lambda>n. n \<notin> set (map number (numbers_collection w))
                           \<and> n \<notin> set (case ex of None \<Rightarrow> [] | Some xs \<Rightarrow> xs)) ups),
            None)"
  using assms filter_loop_acc [of "[]" limit]
  by (simp add: get_canada_numbers_def log_event_def)

theorem get_canada_numbers_filters_witness:
  "(1::int) \<le> 2
   \<and> twilio_list example_env ''AC1'' ''tok1'' = Inr [''+1555A'', ''+1555B'', ''+1555C'']
   \<and> fst (get_canada_numbers example_env ''AC1'' ''tok1'' 2 None world_number_A) =
       ([''+1555B'', ''+1555C''], None)"
  using get_canada_numbers_filters
    [of 2 example_env "''AC1''" "''tok1''" "[''+1555A'', ''+1555B'', ''+1555C'']" None world_number_A]
  by (simp add: example_env_def world_number_A_def number_A_def)

text \<open>
  The claim as stated covers every desired count. With a desired count of 0 the loop
  appends the first number that passes before it tests the length, so one number is
  returned where the claim allows none.
\<close>

theorem get_canada_numbers_limit_zero:
  "fst (get_canada_numbers example_env ''AC1'' ''tok1'' 0 None world_number_A) =
     ([''+1555B''], None)
   \<and> \<not> int (length (fst (fst (get_canada_numbers example_env ''AC1'' ''tok1'' 0 None
                                   world_number_A)))) \<le> 0"
  by (simp add: get_canada_numbers_def log_event_def example_env_def world_number_A_def
      number_A_def)

section \<open>Release\<close>

lemma delete_one_find:
  "find (\<lambda>d. number d = n) ds = Some d \<Longrightarrow>
   \<exists>xs ys. ds = xs @ d # ys \<and> (\<forall>x\<in>set xs. number x \<noteq> n) \<and> delete_one n ds = xs @ ys"
proof (induction ds)
  case Nil
  then show ?case by simp
next
  case (Cons a ds)
  show ?case
  proof (cases "number a = n")
    case True
    with Cons.prems have "a = d" by simp
    with True show ?thesis by (intro exI [of _ "[]"] exI [of _ ds]) simp
  next
    case False
    with Cons obtain xs ys where
      "ds = xs @ d # ys" "\<forall>x\<in>set xs. number x \<noteq> n" "delete_one n ds = xs @ ys"
      by auto
    with False show ?thesis by (intro exI [of _ "a # xs"] exI [of _ ys]) simp
  qed
qed

text \<open>
  Claim C6. Without a document for the number, \<^verbatim>\<open>delete_number\<close> returns the
  not-found result and leaves the state as it was: no collection is written and no
  upstream call is made. With a document, the upstream release is called with the
  \<^verbatim>\<open>twilio_sid\<close> stored in that document; when the release raises, the result is the
  failure and the numbers collection is unchanged; when it succeeds, that document (the
  first one with the number) is removed and the result is success.
\<close>

theorem delete_number_release:
  "(find_one_number w n = None \<longrightarrow>
      delete_number e s tok n w = ((False, Some (Lit ''Number not found in database'')), w))
   \<and> (\<forall>d. find_one_number w n = Some d \<longrightarrow>
        (\<forall>err. twilio_delete e s tok (twilio_sid d) = Some err \<longrightarrow>
           delete_number e s tok n w =
             ((False, Some (StrExc err)),
              w\<lparr>calls := calls w @ [TwilioDelete s tok (twilio_sid d)]\<rparr>))
      \<and> (twilio_delete e s tok (twilio_sid d) = None \<longrightarrow>
           delete_number e s tok n w =
             ((True, None),
              w\<lparr>calls := calls w @ [TwilioDelete s tok (twilio_sid d)],
                numbers_collection := delete_one n (numbers_collection w)\<rparr>)
           \<and> (\<exists>xs ys. numbers_collection w = xs @ d # ys
                \<and> (\<forall>x\<in>set xs. number x \<noteq> n)
                \<and> delete_one n (numbers_collection w) = xs @ ys)))"
  using delete_one_find [of n "numbers_collection w"]
  by (auto simp: delete_number_def find_one_number_def log_event_def)

theorem delete_number_release_witness:
  "find_one_number world_number_A ''+1555B'' = None
   \<and> delete_number example_env ''AC1'' ''tok1'' ''+1555B'' world_number_A =
       ((False, Some (Lit ''Number not found in database'')), world_number_A)
   \<and> find_one_number world_number_A ''+1555A'' = Some number_A
   \<and> twilio_delete env_release_fails ''AC1'' ''tok1'' (twilio_sid number_A) =
       Some (TwilioRestException ''HTTP 404'')
   \<and> delete_number env_release_fails ''AC1'' ''tok1'' ''+1555A'' world_number_A =
       ((False, Some (StrExc (TwilioRestException ''HTTP 404''))),
        world_number_A\<lparr>calls := [TwilioDelete ''AC1'' ''tok1'' ''PN123'']\<rparr>)
   \<and> twilio_delete example_env ''AC1'' ''tok1'' (twilio_sid number_A) = None
   \<and> delete_number example_env ''AC1'' ''tok1'' ''+1555A'' world_number_A =
       ((True, None),
        world_number_A\<lparr>calls := [TwilioDelete ''AC1'' ''tok1'' ''PN123''],
                       numbers_collection := []\<rparr>)"
  using delete_number_release [of world_number_A "''+1555B''" example_env "''AC1''" "''tok1''"]
    delete_number_release [of world_number_A "''+1555A''" env_release_fails "''AC1''" "''tok1''"]
    delete_number_release [of world_number_A "''+1555A''" example_env "''AC1''" "''tok1''"]
  by (simp add: find_one_number_def world_number_A_def number_A_def example_env_def
      env_release_fails_def)

section \<open>Effects of the handlers\<close>

lemma purchase_calls_append [simp]:
  "purchase_calls (xs @ ys) = purchase_calls xs @ purchase_calls ys"
  by (induction xs rule: purchase_calls.induct) auto

lemma log_event_simps [simp]:
  "users_collection (log_event ev w) = users_collection w"
  "credentials_collection (log_event ev w) = credentials_collection w"
  "numbers_collection (log_event ev w) = numbers_collection w"
  "calls (log_event ev w) = calls w @ [ev]"
  by (simp_all add: log_event_def)

lemma save_user_simps [simp]:
  "credentials_collection (save_user u w) = credentials_collection w"
  "numbers_collection (save_user u w) = numbers_collection w"
  "calls (save_user u w) = calls w"
  by (simp_all add: save_user_def)

lemma get_user_log_event [simp]: "get_user (log_event ev w) uid = get_user w uid"
  by (simp add: get_user_def)

lemma find_one_number_log_event [simp]: "find_one_number (log_event ev w) n = find_one_number w n"
  by (simp add: find_one_number_def)

lemma notify_loop_simps [simp]:
  "users_collection (notify_loop e m ids w) = users_collection w"
  "credentials_collection (notify_loop e m ids w) = credentials_collection w"
  "numbers_collection (notify_loop e m ids w) = numbers_collection w"
  "purchase_calls (calls (notify_loop e m ids w)) = purchase_calls (calls w)"
  by (induction ids arbitrary: w; simp add: Let_def)+

lemma py_split_no_separator: "c \<notin> set n \<Longrightarrow> py_split c n = [n]"
  by (induction n) auto

lemma get_user_telegram_id: "get_user w uid = Some u \<Longrightarrow> telegram_id u = uid"
  by (auto simp: get_user_def find_Some_iff)

lemma get_next_sid_nonneg:
  assumes "get_valid_credentials w \<noteq> []" and "0 \<le> current_sid_index u"
  shows "get_next_sid u w =
           Inr ((Some (sid (get_valid_credentials w ! selected_index (get_valid_credentials w) (current_sid_index u))),
                 Some (auth_token (get_valid_credentials w ! selected_index (get_valid_credentials w) (current_sid_index u)))),
                u\<lparr>current_sid_index := int (selected_index (get_valid_credentials w) (current_sid_index u))\<rparr>,
                if int (length (get_valid_credentials w)) \<le> current_sid_index u
                then save_user (u\<lparr>current_sid_index := 0\<rparr>) w else w)"
  using assms
  by (auto simp: get_next_sid_def Let_def py_index_def selected_index_def)

lemma selected_index_less: "cs \<noteq> [] \<Longrightarrow> selected_index cs c < length cs"
  by (cases "0 \<le> c") (auto simp: selected_index_def)

lemma usable_nth:
  "usable cs \<Longrightarrow> i < length cs \<Longrightarrow> \<not> falsy (Some (sid (cs ! i))) \<and> \<not> falsy (Some (auth_token (cs ! i)))"
  by (simp add: usable_def list_all_length)

lemma browse_numbers_effect:
  assumes "\<And>u. get_user w uid = Some u \<Longrightarrow> 0 \<le> current_sid_index u"
  shows "\<exists>ss' w'. browse_numbers e uid ss w = Inr (ss', w')
           \<and> credentials_collection w' = credentials_collection w
           \<and> numbers_collection w' = numbers_collection w
           \<and> purchase_calls (calls w') = purchase_calls (calls w)
           \<and> ((\<forall>u. get_user w uid = Some u \<longrightarrow>
                  current_sid_index u < int (length (get_valid_credentials w)))
               \<longrightarrow> users_collection w' = users_collection w)"
proof (cases "get_user w uid")
  case None
  then show ?thesis by (simp add: browse_numbers_def)
next
  case (Some u)
  with assms have nn: "0 \<le> current_sid_index u" by simp
  show ?thesis
  proof (cases "get_valid_credentials w = []")
    case True
    with Some show ?thesis
      by (simp add: browse_numbers_def get_next_sid_def Let_def)
  next
    case False
    from get_next_sid_nonneg [of "log_event AnswerCallbackQuery w" u] False nn
    show ?thesis using Some
      by (auto simp: browse_numbers_def Let_def get_canada_numbers_def split: sum.splits)
  qed
qed

lemma buy_number_success:
  assumes "twilio_create e s tok n = Inr p" and "get_user w uid = Some u"
    and "get_valid_credentials w \<noteq> []"
  shows "buy_number e s tok n uid w =
           ((True, Lit p),
            save_user (u\<lparr>current_sid_index :=
                           (current_sid_index u + 1) mod int (length (get_valid_credentials w))\<rparr>)
              (w\<lparr>calls := calls w @ [TwilioCreate s tok n],
                 numbers_collection := numbers_collection w @
                    [\<lparr>number = n, twilio_sid = p, user_id = uid, bought_on = bson_datetime (now e)\<rparr>]\<rparr>))"
  using assms
  by (simp add: buy_number_def log_event_def get_user_def get_valid_credentials_def py_mod_def)

lemma get_user_after_lookup:
  assumes "get_user w uid = Some u"
  shows "get_user (if b then save_user (u\<lparr>current_sid_index := 0\<rparr>) w else w) uid =
           Some (if b then bson_user (u\<lparr>current_sid_index := 0\<rparr>) else u)"
  using assms get_user_telegram_id [OF assms] by (simp add: get_user_save_user)

lemma buy_number_callback_step:
  assumes n: "CHR ''_'' \<notin> set n"
    and u: "get_user w uid = Some u" and nn: "0 \<le> current_sid_index u"
    and cs: "usable (get_valid_credentials w)"
    and ok: "twilio_create e
               (sid (get_valid_credentials w ! selected_index (get_valid_credentials w) (current_sid_index u)))
               (auth_token (get_valid_credentials w ! selected_index (get_valid_credentials w) (current_sid_index u)))
               n = Inr p"
  shows "\<exists>ss' w' u'. buy_number_callback e uid (''buy_'' @ n) ss w = Inr (ss', w')
           \<and> get_valid_credentials w' = get_valid_credentials w
           \<and> numbers_collection w' = numbers_collection w @
                [\<lparr>number = n, twilio_sid = p, user_id = uid, bought_on = bson_datetime (now e)\<rparr>]
           \<and> get_user w' uid = Some u'
           \<and> current_sid_index u' =
               (int (selected_index (get_valid_credentials w) (current_sid_index u)) + 1)
                 mod int (length (get_valid_credentials w))
           \<and> purchase_calls (calls w') = purchase_calls (calls w) @
               [(sid (get_valid_credentials w ! selected_index (get_valid_credentials w) (current_sid_index u)),
                 auth_token (get_valid_credentials w ! selected_index (get_valid_credentials w) (current_sid_index u)),
                 n)]"
proof -
  define cs where "cs = get_valid_credentials w"
  define i where "i = selected_index cs (current_sid_index u)"
  define wa where "wa = log_event AnswerCallbackQuery w"
  define u1 where "u1 = u\<lparr>current_sid_index := int i\<rparr>"
  define w1 where "w1 = (if int (length cs) \<le> current_sid_index u
                          then save_user (u\<lparr>current_sid_index := 0\<rparr>) wa else wa)"
  define w2 where "w2 = log_event (SendMessage uid (MsgPurchasing n)) w1"
  from cs have ne: "cs \<noteq> []" by (simp add: usable_def cs_def)
  then have i_less: "i < length cs" by (simp add: i_def selected_index_less)
  have lookup: "get_next_sid u wa = Inr ((Some (sid (cs ! i)), Some (auth_token (cs ! i))), u1, w1)"
    using get_next_sid_nonneg [of wa u] ne nn
    by (simp add: wa_def cs_def i_def u1_def w1_def)
  have truthy: "\<not> falsy (Some (sid (cs ! i)))" "\<not> falsy (Some (auth_token (cs ! i)))"
    using usable_nth [OF cs [folded cs_def] i_less] by simp_all
  have u_w1: "get_user w1 uid = Some (if int (length cs) \<le> current_sid_index u
                                       then bson_user (u\<lparr>current_sid_index := 0\<rparr>) else u)"
    unfolding w1_def using get_user_after_lookup [of wa uid u] u by (simp add: wa_def)
  have cur: "current_sid_index (if int (length cs) \<le> current_sid_index u
                                then bson_user (u\<lparr>current_sid_index := 0\<rparr>) else u) = int i"
    using nn by (simp add: i_def selected_index_def)
  have cs_w2: "get_valid_credentials w2 = cs"
    by (simp add: w2_def w1_def wa_def cs_def)
  have p: "twilio_create e (sid (cs ! i)) (auth_token (cs ! i)) n = Inr p"
    using ok by (simp add: cs_def i_def)
  define u2 where "u2 = (if int (length cs) \<le> current_sid_index u
                          then bson_user (u\<lparr>current_sid_index := 0\<rparr>) else u)
                          \<lparr>current_sid_index := (int i + 1) mod int (length cs)\<rparr>"
  define w3 where "w3 = save_user u2
      (w2\<lparr>calls := calls w2 @ [TwilioCreate (sid (cs ! i)) (auth_token (cs ! i)) n],
          numbers_collection := numbers_collection w2 @
             [\<lparr>number = n, twilio_sid = p, user_id = uid, bought_on = bson_datetime (now e)\<rparr>]\<rparr>)"
  have buy: "buy_number e (sid (cs ! i)) (auth_token (cs ! i)) n uid w2 = ((True, Lit p), w3)"
    using buy_number_success [OF p, of w2 uid] u_w1 cs_w2 ne cur
    by (simp add: w2_def w3_def u2_def)
  define w4 where "w4 = log_event (EditMessage uid (MsgPurchased n (Lit p))) w3"
  have step: "buy_number_callback e uid (''buy_'' @ n) ss w = browse_numbers e uid ss w4"
    using u lookup [unfolded wa_def] truthy buy [unfolded w2_def]
    by (simp add: buy_number_callback_def Let_def py_split_no_separator [OF n] py_index_def
        w4_def)
  have id_u2: "telegram_id u2 = uid"
    using get_user_telegram_id [OF u] by (simp add: u2_def)
  have u_w4: "get_user w4 uid = Some (bson_user u2)"
    by (simp add: w4_def w3_def get_user_save_user [OF id_u2])
  have cs_w4: "get_valid_credentials w4 = cs"
    using cs_w2 by (simp add: w4_def w3_def get_valid_credentials_def)
  have cur_u2: "current_sid_index u2 = (int i + 1) mod int (length cs)"
    by (simp add: u2_def)
  have in_range: "0 \<le> current_sid_index u2" "current_sid_index u2 < int (length cs)"
    using ne by (simp_all add: cur_u2)
  from browse_numbers_effect [of w4 uid e ss] u_w4 in_range cs_w4
  obtain ss' w' where b: "browse_numbers e uid ss w4 = Inr (ss', w')"
    and b_cs: "credentials_collection w' = credentials_collection w4"
    and b_calls: "purchase_calls (calls w') = purchase_calls (calls w4)"
    and b_numbers: "numbers_collection w' = numbers_collection w4"
    and b_users: "users_collection w' = users_collection w4"
    by auto
  have "get_valid_credentials w' = get_valid_credentials w"
    using b_cs cs_w4 by (simp add: get_valid_credentials_def cs_def)
  moreover have "numbers_collection w' = numbers_collection w @
      [\<lparr>number = n, twilio_sid = p, user_id = uid, bought_on = bson_datetime (now e)\<rparr>]"
    using b_numbers by (simp add: w4_def w3_def w2_def w1_def wa_def)
  moreover have "get_user w' uid = Some (bson_user u2)"
    using b_users u_w4 by (simp add: get_user_def)
  moreover have "purchase_calls (calls w') = purchase_calls (calls w) @ [(sid (cs ! i), auth_token (cs ! i), n)]"
    using b_calls by (simp add: w4_def w3_def w2_def w1_def wa_def)
  ultimately show ?thesis
    using step b cur_u2 by (simp add: cs_def i_def)
qed

lemma buy_run_round_robin:
  assumes "usable (get_valid_credentials w)" and "get_user w uid = Some u"
    and "0 \<le> current_sid_index u"
    and "\<forall>n\<in>set ns. CHR ''_'' \<notin> set n"
    and ok: "\<And>s tok n. \<exists>p. twilio_create e s tok n = Inr p"
  shows "\<exists>ss' w' u'. buy_run e uid ns ss w = Inr (ss', w')
           \<and> get_valid_credentials w' = get_valid_credentials w
           \<and> get_user w' uid = Some u'
           \<and> 0 \<le> current_sid_index u'
           \<and> (ns \<noteq> [] \<longrightarrow> current_sid_index u' =
                 (int (selected_index (get_valid_credentials w) (current_sid_index u))
                    + int (length ns)) mod int (length (get_valid_credentials w)))
           \<and> purchase_calls (calls w') = purchase_calls (calls w) @
               round_robin (get_valid_credentials w)
                 (selected_index (get_valid_credentials w) (current_sid_index u)) ns"
  using assms(1-4)
proof (induction ns arbitrary: w u ss)
  case Nil
  then show ?case by simp
next
  case (Cons n ns)
  define cs where "cs = get_valid_credentials w"
  define i where "i = selected_index cs (current_sid_index u)"
  from Cons.prems have ne: "cs \<noteq> []" by (simp add: usable_def cs_def)
  from Cons.prems have n: "CHR ''_'' \<notin> set n" by simp
  obtain p where "twilio_create e (sid (cs ! i)) (auth_token (cs ! i)) n = Inr p"
    using ok by blast
  from buy_number_callback_step [OF n Cons.prems(2) Cons.prems(3) Cons.prems(1)
      this [unfolded i_def cs_def], of ss]
  obtain ss1 w1 u1 where
    step: "buy_number_callback e uid (''buy_'' @ n) ss w = Inr (ss1, w1)"
    and cs1: "get_valid_credentials w1 = cs"
    and u1: "get_user w1 uid = Some u1"
    and cur1: "current_sid_index u1 = (int i + 1) mod int (length cs)"
    and calls1: "purchase_calls (calls w1) = purchase_calls (calls w) @
                   [(sid (cs ! i), auth_token (cs ! i), n)]"
    by (auto simp: cs_def i_def)
  have nn1: "0 \<le> current_sid_index u1" and lt1: "current_sid_index u1 < int (length cs)"
    using ne by (simp_all add: cur1)
  have i1: "selected_index cs (current_sid_index u1) = (i + 1) mod length cs"
    using lt1 by (simp add: selected_index_def cur1 nat_mod_distrib nat_add_distrib)
  from Cons.IH [of w1 u1 ss1] Cons.prems cs1 u1 nn1
  obtain ss' w' u' where
    run: "buy_run e uid ns ss1 w1 = Inr (ss', w')"
    and cs': "get_valid_credentials w' = cs"
    and u': "get_user w' uid = Some u'"
    and nn': "0 \<le> current_sid_index u'"
    and cur': "ns \<noteq> [] \<longrightarrow> current_sid_index u' =
                 (int (selected_index cs (current_sid_index u1)) + int (length ns))
                   mod int (length cs)"
    and calls': "purchase_calls (calls w') = purchase_calls (calls w1) @
                   round_robin cs (selected_index cs (current_sid_index u1)) ns"
    by (auto simp: cs_def)
  have "current_sid_index u' = (int i + int (length (n # ns))) mod int (length cs)"
  proof (cases "ns = []")
    case True
    with run u1 u' cur1 show ?thesis by simp
  next
    case False
    with cur' i1 have "current_sid_index u' =
        ((int i + 1) mod int (length cs) + int (length ns)) mod int (length cs)"
      by (simp add: zmod_int ac_simps)
    also have "\<dots> = (int i + 1 + int (length ns)) mod int (length cs)"
      by (simp add: mod_add_left_eq)
    finally show ?thesis by (simp add: ac_simps)
  qed
  with step run cs' u' nn' calls' calls1 i1 show ?case
    by (simp add: cs_def [symmetric] i_def [symmetric])
qed

section \<open>Round-robin selection\<close>

lemma round_robin_indices:
  "map (\<lambda>(s, tok, n). (s, tok)) (round_robin cs i ns) =
     map (\<lambda>j. (sid (cs ! ((i + j) mod length cs)), auth_token (cs ! ((i + j) mod length cs))))
       [0..<length ns]"
    if "i < length cs"
  using that
proof (induction ns arbitrary: i)
  case Nil
  then show ?case by simp
next
  case (Cons n ns)
  then have "0 < length cs" by (cases cs) simp_all
  then have "(i + 1) mod length cs < length cs" by simp
  from Cons.IH [OF this] Cons.prems show ?case
    by (simp add: upt_conv_Cons map_Suc_upt [symmetric] mod_add_left_eq del: upt_Suc)
qed

lemma round_robin_numbers: "map (\<lambda>(s, tok, n). n) (round_robin cs i ns) = ns"
  by (induction ns arbitrary: i) auto

lemma round_robin_full_cycle:
  assumes "i < length cs" and "length ns = length cs"
  shows "map (\<lambda>(s, tok, n). (s, tok)) (round_robin cs i ns) =
           map (\<lambda>c. (sid c, auth_token c)) (rotate i cs)"
  using assms
  by (auto simp: round_robin_indices nth_rotate intro!: nth_equalityI)

section \<open>Purchase of a number that is already allocated\<close>

lemma buy_number_upstream_first:
  "calls (snd (buy_number e s tok n uid w)) = calls w @ [TwilioCreate s tok n]"
  "numbers_collection (snd (buy_number e s tok n uid w)) =
     (case twilio_create e s tok n of
        Inl err \<Rightarrow> numbers_collection w
      | Inr p \<Rightarrow> numbers_collection w @
          [\<lparr>number = n, twilio_sid = p, user_id = uid, bought_on = bson_datetime (now e)\<rparr>])"
  by (auto simp: buy_number_def Let_def split: sum.splits option.splits)

lemma buy_number_failure:
  "twilio_create e s tok n = Inl err \<Longrightarrow>
   buy_number e s tok n uid w = ((False, StrExc err), log_event (TwilioCreate s tok n) w)"
  by (simp add: buy_number_def)

text \<open>
  Claim C1, as amended. A purchase is not checked against the numbers collection:
  \<^verbatim>\<open>buy_number\<close> always makes the upstream purchase call first, and a new number
  document is appended exactly when that call succeeds (none when it raises). The
  \<^verbatim>\<open>buy_\<close> handler reaches that call for every subscriber with a user document and a
  usable credential, whatever the numbers collection holds.
\<close>

theorem purchase_always_calls_upstream:
  "calls (snd (buy_number e s tok n uid w)) = calls w @ [TwilioCreate s tok n]
   \<and> numbers_collection (snd (buy_number e s tok n uid w)) =
       (case twilio_create e s tok n of
          Inl err \<Rightarrow> numbers_collection w
        | Inr p \<Rightarrow> numbers_collection w @
            [\<lparr>number = n, twilio_sid = p, user_id = uid, bought_on = bson_datetime (now e)\<rparr>])
   \<and> (CHR ''_'' \<notin> set n \<and> get_user w uid = Some u \<and> 0 \<le> current_sid_index u
        \<and> usable (get_valid_credentials w)
        \<and> twilio_create e
             (sid (get_valid_credentials w ! selected_index (get_valid_credentials w) (current_sid_index u)))
             (auth_token (get_valid_credentials w ! selected_index (get_valid_credentials w) (current_sid_index u)))
             n = Inr p
      \<longrightarrow> (\<exists>ss' w'. buy_number_callback e uid (''buy_'' @ n) ss w = Inr (ss', w')
             \<and> purchase_calls (calls w') = purchase_calls (calls w) @
                 [(sid (get_valid_credentials w ! selected_index (get_valid_credentials w) (current_sid_index u)),
                   auth_token (get_valid_credentials w ! selected_index (get_valid_credentials w) (current_sid_index u)),
                   n)]
             \<and> numbers_collection w' = numbers_collection w @
                 [\<lparr>number = n, twilio_sid = p, user_id = uid, bought_on = bson_datetime (now e)\<rparr>]))"
proof (intro conjI impI)
  assume h: "CHR ''_'' \<notin> set n \<and> get_user w uid = Some u \<and> 0 \<le> current_sid_index u
        \<and> usable (get_valid_credentials w)
        \<and> twilio_create e
             (sid (get_valid_credentials w ! selected_index (get_valid_credentials w) (current_sid_index u)))
             (auth_token (get_valid_credentials w ! selected_index (get_valid_credentials w) (current_sid_index u)))
             n = Inr p"
  from buy_number_callback_step [of n w uid u e p ss] h
  show "\<exists>ss' w'. buy_number_callback e uid (''buy_'' @ n) ss w = Inr (ss', w')
             \<and> purchase_calls (calls w') = purchase_calls (calls w) @
                 [(sid (get_valid_credentials w ! selected_index (get_valid_credentials w) (current_sid_index u)),
                   auth_token (get_valid_credentials w ! selected_index (get_valid_credentials w) (current_sid_index u)),
                   n)]
             \<and> numbers_collection w' = numbers_collection w @
                 [\<lparr>number = n, twilio_sid = p, user_id = uid, bought_on = bson_datetime (now e)\<rparr>]"
    by auto
qed (simp_all add: buy_number_upstream_first)

lemma example_is_not_admin: "\<not> is_admin 1"
  by (simp add: is_admin_def ALL_ADMIN_IDS_def BOSS_ID_def ADMIN_IDS_def)

lemmas example_defs =
  example_env_def example_user_def cred1_def cred2_def world_two_credentials_def
  world_number_A_def number_A_def session0_def

lemmas handler_defs =
  bson_user_def bson_datetime_def buy_number_callback_def browse_numbers_def check_otp_callback_def
  delete_number_callback_def get_next_sid_def buy_number_def get_canada_numbers_def
  delete_number_def check_sms_def get_user_def get_valid_credentials_def
  find_one_number_def save_user_def log_event_def py_index_def py_mod_def
  is_subscription_active_def Let_def

text \<open>
  The claim as stated fails: number +1555A is allocated to subscriber 2, and the purchase
  request of subscriber 1 makes the upstream call and, when the upstream accepts it,
  appends a second document for the same number. When the upstream refuses, the call has
  still been made.
\<close>

theorem purchase_of_allocated_number:
  "find_one_number world_number_A ''+1555A'' = Some number_A
   \<and> buy_number_callback example_env 1 ''buy_+1555A'' session0 world_number_A =
       Inr (session0\<lparr>current_numbers := Some [''+1555B'', ''+1555C'']\<rparr>,
            world_after_second_purchase)
   \<and> buy_number env_purchase_rejected ''AC1'' ''tok1'' ''+1555A'' 1 world_number_A =
       ((False, StrExc (TwilioRestException ''HTTP 400'')),
        world_number_A\<lparr>calls := [TwilioCreate ''AC1'' ''tok1'' ''+1555A'']\<rparr>)"
  by (simp add: handler_defs example_defs example_is_not_admin world_after_second_purchase_def
      env_purchase_rejected_def)

theorem purchase_always_calls_upstream_witness:
  "CHR ''_'' \<notin> set ''+1555A'' \<and> get_user world_number_A 1 = Some example_user
   \<and> 0 \<le> current_sid_index example_user
   \<and> usable (get_valid_credentials world_number_A)
   \<and> twilio_create example_env ''AC1'' ''tok1'' ''+1555A'' = Inr ''PN+1555A''
   \<and> (\<exists>ss' w'. buy_number_callback example_env 1 ''buy_+1555A'' session0 world_number_A =
                  Inr (ss', w')
         \<and> purchase_calls (calls w') = [(''AC1'', ''tok1'', ''+1555A'')]
         \<and> numbers_collection w' =
             [number_A,
              \<lparr>number = ''+1555A'', twilio_sid = ''PN+1555A'', user_id = 1, bought_on = 200000\<rparr>])"
  using purchase_always_calls_upstream
    [of example_env "''AC1''" "''tok1''" "''+1555A''" 1 world_number_A example_user
        "''PN+1555A''" session0]
  by (simp add: example_defs get_user_def get_valid_credentials_def usable_def
      selected_index_def bson_datetime_def)

section \<open>Credential rotation\<close>

text \<open>
  Claim C4. For a subscriber with a user document and a non-negative cursor, and a fixed
  set of \<open>K\<close> usable valid credentials: a run of \<open>K\<close> consecutive purchases that the
  upstream accepts uses the credentials in the order of the set rotated to the selected
  index (the cursor, or 0 for a cursor beyond the set), so each one exactly once, and
  brings the cursor back to where it started. A lookup leaves the cursor at the selected
  index and never advances it; a purchase the upstream refuses writes no user document; a
  purchase it accepts stores \<open>(cursor + 1) mod K\<close>.
\<close>

theorem credential_rotation:
  assumes cs: "usable (get_valid_credentials w)" and u: "get_user w uid = Some u"
    and nn: "0 \<le> current_sid_index u"
  shows "(length ns = length (get_valid_credentials w) \<and> (\<forall>n\<in>set ns. CHR ''_'' \<notin> set n)
           \<and> (\<forall>s tok n. \<exists>p. twilio_create e s tok n = Inr p)
          \<longrightarrow> (\<exists>ss' w' u' new.
                 buy_run e uid ns ss w = Inr (ss', w')
               \<and> purchase_calls (calls w') = purchase_calls (calls w) @ new
               \<and> map (\<lambda>(s, tok, n). (s, tok)) new =
                   map (\<lambda>c. (sid c, auth_token c))
                     (rotate (selected_index (get_valid_credentials w) (current_sid_index u))
                        (get_valid_credentials w))
               \<and> map (\<lambda>(s, tok, n). n) new = ns
               \<and> get_user w' uid = Some u'
               \<and> current_sid_index u' =
                   int (selected_index (get_valid_credentials w) (current_sid_index u))))
       \<and> (\<forall>r u' w'. get_next_sid u w = Inr (r, u', w') \<longrightarrow>
              current_sid_index u' =
                int (selected_index (get_valid_credentials w) (current_sid_index u))
            \<and> (\<exists>d. get_user w' uid = Some d \<and> current_sid_index d = current_sid_index u'))
       \<and> (\<forall>s tok n err. twilio_create e s tok n = Inl err \<longrightarrow>
              users_collection (snd (buy_number e s tok n uid w)) = users_collection w)
       \<and> (\<forall>s tok n p. twilio_create e s tok n = Inr p \<longrightarrow>
              (\<exists>d. get_user (snd (buy_number e s tok n uid w)) uid = Some d
                 \<and> current_sid_index d =
                     (current_sid_index u + 1) mod int (length (get_valid_credentials w))))"
proof (intro conjI allI impI)
  define cs where "cs = get_valid_credentials w"
  define i where "i = selected_index cs (current_sid_index u)"
  from cs have ne: "cs \<noteq> []" by (simp add: usable_def cs_def)
  then have i_less: "i < length cs" by (simp add: i_def selected_index_less)
  assume run: "length ns = length (get_valid_credentials w) \<and> (\<forall>n\<in>set ns. CHR ''_'' \<notin> set n)
                 \<and> (\<forall>s tok n. \<exists>p. twilio_create e s tok n = Inr p)"
  then have len: "length ns = length cs" and ns_ne: "ns \<noteq> []"
    using ne by (auto simp: cs_def)
  from run have ok: "\<And>s tok n. \<exists>p. twilio_create e s tok n = Inr p" by blast
  from buy_run_round_robin [OF cs u nn _ ok, of ns ss] run
  obtain ss' w' u' where r: "buy_run e uid ns ss w = Inr (ss', w')"
    and u': "get_user w' uid = Some u'"
    and cur: "current_sid_index u' = (int i + int (length ns)) mod int (length cs)"
    and calls: "purchase_calls (calls w') = purchase_calls (calls w) @ round_robin cs i ns"
    using ns_ne by (auto simp: cs_def i_def)
  have "current_sid_index u' = int i"
    using cur len i_less by simp
  with r u' calls round_robin_full_cycle [OF i_less len] round_robin_numbers [of cs i ns]
  show "\<exists>ss' w' u' new.
                 buy_run e uid ns ss w = Inr (ss', w')
               \<and> purchase_calls (calls w') = purchase_calls (calls w) @ new
               \<and> map (\<lambda>(s, tok, n). (s, tok)) new =
                   map (\<lambda>c. (sid c, auth_token c))
                     (rotate (selected_index (get_valid_credentials w) (current_sid_index u))
                        (get_valid_credentials w))
               \<and> map (\<lambda>(s, tok, n). n) new = ns
               \<and> get_user w' uid = Some u'
               \<and> current_sid_index u' =
                   int (selected_index (get_valid_credentials w) (current_sid_index u))"
    by (auto simp: cs_def i_def)
next
  fix r u' w'
  assume l: "get_next_sid u w = Inr (r, u', w')"
  from cs have ne: "get_valid_credentials w \<noteq> []" by (simp add: usable_def)
  from l get_next_sid_nonneg [OF ne nn]
  show "current_sid_index u' =
          int (selected_index (get_valid_credentials w) (current_sid_index u))"
    by auto
  from l get_next_sid_nonneg [OF ne nn] get_user_after_lookup [OF u] nn
  show "\<exists>d. get_user w' uid = Some d \<and> current_sid_index d = current_sid_index u'"
    by (auto simp: selected_index_def)
next
  fix s tok n err
  assume "twilio_create e s tok n = Inl err"
  then show "users_collection (snd (buy_number e s tok n uid w)) = users_collection w"
    by (simp add: buy_number_failure)
next
  fix s tok n p
  assume p: "twilio_create e s tok n = Inr p"
  from cs have ne: "get_valid_credentials w \<noteq> []" by (simp add: usable_def)
  from buy_number_success [OF p u ne] get_user_telegram_id [OF u]
  show "\<exists>d. get_user (snd (buy_number e s tok n uid w)) uid = Some d
          \<and> current_sid_index d =
              (current_sid_index u + 1) mod int (length (get_valid_credentials w))"
    by (simp add: get_user_save_user)
qed

theorem credential_rotation_witness:
  "usable (get_valid_credentials world_two_credentials)
   \<and> get_user world_two_credentials 1 = Some example_user
   \<and> 0 \<le> current_sid_index example_user
   \<and> length [''+1555B'', ''+1555C''] = length (get_valid_credentials world_two_credentials)
   \<and> CHR ''_'' \<notin> set ''+1555B'' \<and> CHR ''_'' \<notin> set ''+1555C''
   \<and> (\<forall>s tok n. \<exists>p. twilio_create example_env s tok n = Inr p)
   \<and> (\<exists>ss' w'. buy_run example_env 1 [''+1555B'', ''+1555C''] session0 world_two_credentials =
                  Inr (ss', w')
         \<and> purchase_calls (calls w') =
             [(''AC1'', ''tok1'', ''+1555B''), (''AC2'', ''tok2'', ''+1555C'')]
         \<and> get_user w' 1 = Some example_user)"
  using credential_rotation
    [of world_two_credentials 1 example_user "[''+1555B'', ''+1555C'']" example_env session0]
  by (simp add: handler_defs example_defs example_is_not_admin usable_def)

section \<open>Reading the latest message\<close>

lemma check_sms_result:
  "check_sms e s tok n w = (sms_content e s tok n, log_event (TwilioMessages s tok n) w)"
  by (simp add: check_sms_def sms_content_def split: sum.splits list.splits)

text \<open>
  Claim C10. For a subscriber with a user document and a usable credential, the
  \<^verbatim>\<open>otp_\<close> handler reads the latest message of any number that has a document in the
  numbers collection: the owner recorded in the document is not consulted. The
  \<^verbatim>\<open>delete_\<close> handler, on the same state, refuses a sender who is neither the owner
  nor an administrator.
\<close>

theorem otp_read_ignores_owner:
  assumes n: "CHR ''_'' \<notin> set n" and u: "get_user w uid = Some u"
    and nn: "0 \<le> current_sid_index u" and cs: "usable (get_valid_credentials w)"
    and d: "find_one_number w n = Some d"
  shows "(\<exists>w' c. check_otp_callback e uid (''otp_'' @ n) ss w = Inr (ss, w')
            \<and> c = get_valid_credentials w ! selected_index (get_valid_credentials w) (current_sid_index u)
            \<and> calls w' = calls w @
                [AnswerCallbackQuery, SendMessage uid (MsgChecking n),
                 TwilioMessages (sid c) (auth_token c) n,
                 EditMessage uid (MsgLatestSms n (sms_content e (sid c) (auth_token c) n))])
       \<and> (user_id d \<noteq> uid \<and> \<not> is_admin uid \<longrightarrow>
            delete_number_callback e uid (''delete_'' @ n) ss w =
              Inr (ss, w\<lparr>calls := calls w @ [AnswerCallbackQuery, SendMessage uid MsgNoPermission]\<rparr>))"
proof (intro conjI impI)
  define cs where "cs = get_valid_credentials w"
  define i where "i = selected_index cs (current_sid_index u)"
  define wa where "wa = log_event AnswerCallbackQuery w"
  from cs have ne: "cs \<noteq> []" by (simp add: usable_def cs_def)
  then have i_less: "i < length cs" by (simp add: i_def selected_index_less)
  have lookup: "get_next_sid u wa =
      Inr ((Some (sid (cs ! i)), Some (auth_token (cs ! i))), u\<lparr>current_sid_index := int i\<rparr>,
           if int (length cs) \<le> current_sid_index u
           then save_user (u\<lparr>current_sid_index := 0\<rparr>) wa else wa)"
    using get_next_sid_nonneg [of wa u] ne nn by (simp add: wa_def cs_def i_def)
  have truthy: "\<not> falsy (Some (sid (cs ! i)))" "\<not> falsy (Some (auth_token (cs ! i)))"
    using usable_nth [OF cs [folded cs_def] i_less] by simp_all
  have found: "find_one_number (if int (length cs) \<le> current_sid_index u
           then save_user (u\<lparr>current_sid_index := 0\<rparr>) wa else wa) n = Some d"
    using d by (simp add: find_one_number_def wa_def)
  show "\<exists>w' c. check_otp_callback e uid (''otp_'' @ n) ss w = Inr (ss, w')
            \<and> c = get_valid_credentials w ! selected_index (get_valid_credentials w) (current_sid_index u)
            \<and> calls w' = calls w @
                [AnswerCallbackQuery, SendMessage uid (MsgChecking n),
                 TwilioMessages (sid c) (auth_token c) n,
                 EditMessage uid (MsgLatestSms n (sms_content e (sid c) (auth_token c) n))]"
    using u lookup [unfolded wa_def] truthy found [unfolded wa_def]
    by (simp add: check_otp_callback_def Let_def py_split_no_separator [OF n] py_index_def
        check_sms_result cs_def [symmetric] i_def [symmetric])
next
  assume "user_id d \<noteq> uid \<and> \<not> is_admin uid"
  with d show "delete_number_callback e uid (''delete_'' @ n) ss w =
      Inr (ss, w\<lparr>calls := calls w @ [AnswerCallbackQuery, SendMessage uid MsgNoPermission]\<rparr>)"
    by (simp add: delete_number_callback_def Let_def py_split_no_separator [OF n] py_index_def
        log_event_def find_one_number_def)
qed

theorem otp_read_ignores_owner_witness:
  "CHR ''_'' \<notin> set ''+1555A'' \<and> get_user world_number_A 1 = Some example_user
   \<and> 0 \<le> current_sid_index example_user \<and> usable (get_valid_credentials world_number_A)
   \<and> find_one_number world_number_A ''+1555A'' = Some number_A
   \<and> user_id number_A = 2 \<and> \<not> is_admin 1
   \<and> check_otp_callback example_env 1 ''otp_+1555A'' session0 world_number_A =
       Inr (session0,
            world_number_A\<lparr>calls :=
              [AnswerCallbackQuery, SendMessage 1 (MsgChecking ''+1555A''),
               TwilioMessages ''AC1'' ''tok1'' ''+1555A'',
               EditMessage 1 (MsgLatestSms ''+1555A'' (Lit ''code 1234''))]\<rparr>)
   \<and> delete_number_callback example_env 1 ''delete_+1555A'' session0 world_number_A =
       Inr (session0,
            world_number_A\<lparr>calls := [AnswerCallbackQuery, SendMessage 1 MsgNoPermission]\<rparr>)"
  using otp_read_ignores_owner
    [of "''+1555A''" world_number_A 1 example_user number_A example_env session0]
  by (simp add: handler_defs example_defs example_is_not_admin usable_def)

section \<open>Expiry sweep\<close>

lemma deactivated_simps [simp]:
  "telegram_id (deactivated d) = telegram_id d"
  "is_active (deactivated d) = False"
  "subscription_end (deactivated d) = map_option bson_datetime (subscription_end d)"
  "current_sid_index (deactivated d) = current_sid_index d"
  by (simp_all add: deactivated_def)

lemma sweep_loop_unfold:
  "users_collection (sweep_loop e sel w) =
     fold (\<lambda>u. update_one_upsert (deactivated u)) (saved e sel) (users_collection w)
   \<and> credentials_collection (sweep_loop e sel w) = credentials_collection w
   \<and> numbers_collection (sweep_loop e sel w) = numbers_collection w
   \<and> calls (sweep_loop e sel w) =
       calls w @ notices e (saved e sel) @ (if saved e sel = sel then [] else [LogError])"
proof (induction sel arbitrary: w)
  case Nil
  then show ?case by (simp add: saved_def notices_def)
next
  case (Cons u sel)
  show ?case
  proof (cases "save_fails e (telegram_id u)")
    case True
    then show ?thesis by (simp add: saved_def notices_def)
  next
    case False
    then show ?thesis
      using Cons.IH by (simp add: saved_def notices_def Let_def save_user_def deactivated_def)
  qed
qed

lemma update_one_upsert_map:
  "distinct (map telegram_id us) \<Longrightarrow> u \<in> set us \<Longrightarrow> telegram_id u' = telegram_id u \<Longrightarrow>
   update_one_upsert u' us = map (\<lambda>d. if d = u then u' else d) us"
proof (induction us)
  case Nil
  then show ?case by simp
next
  case (Cons a us)
  show ?case
  proof (cases "a = u")
    case True
    with Cons.prems have "u \<notin> set us" by (auto simp: image_iff)
    then have "map (\<lambda>d. if d = u then u' else d) us = us" by (induction us) auto
    with True Cons.prems show ?thesis by simp
  next
    case False
    with Cons.prems have "telegram_id a \<noteq> telegram_id u" by (auto simp: image_iff)
    with False Cons show ?thesis by auto
  qed
qed

lemma fold_deactivate:
  assumes "distinct (map telegram_id us)" and "set sel \<subseteq> set us" and "distinct sel"
    and "\<forall>u\<in>set sel. is_active u"
  shows "fold (\<lambda>u. update_one_upsert (deactivated u)) sel us =
           map (\<lambda>d. if d \<in> set sel then deactivated d else d) us"
  using assms
proof (induction sel arbitrary: us)
  case Nil
  then show ?case by simp
next
  case (Cons u sel)
  define us1 where "us1 = map (\<lambda>d. if d = u then deactivated u else d) us"
  from Cons.prems have u_in: "u \<in> set us" and u_notin: "u \<notin> set sel" and act: "is_active u"
    by auto
  have step: "update_one_upsert (deactivated u) us = us1"
    unfolding us1_def using update_one_upsert_map [OF Cons.prems(1) u_in] by simp
  have ids: "map telegram_id us1 = map telegram_id us"
    by (simp add: us1_def comp_def cong: map_cong)
  have sub: "set sel \<subseteq> set us1"
    using Cons.prems(2) u_notin by (auto simp: us1_def image_iff)
  have off: "deactivated u \<notin> set sel"
    using Cons.prems(4) by auto
  have "fold (\<lambda>u. update_one_upsert (deactivated u)) sel us1 =
          map (\<lambda>d. if d \<in> set sel then deactivated d else d) us1"
    using Cons.IH [of us1] Cons.prems ids sub by simp
  also have "\<dots> = map (\<lambda>d. if d \<in> set (u # sel) then deactivated d else d) us"
    using off u_notin by (auto simp: us1_def)
  finally show ?case by (simp add: step)
qed

lemma count_notices:
  "count_list (notices e sel) (SendMessage i MsgExpiredNotice) =
     length (filter (\<lambda>u. telegram_id u = i) sel)"
  by (induction sel) (auto simp: notices_def)

lemma one_with_id:
  "distinct (map telegram_id sel) \<Longrightarrow> d \<in> set sel \<Longrightarrow>
   length (filter (\<lambda>u. telegram_id u = telegram_id d) sel) = 1"
proof (induction sel)
  case Nil
  then show ?case by simp
next
  case (Cons a sel)
  show ?case
  proof (cases "a = d")
    case True
    with Cons.prems have "filter (\<lambda>u. telegram_id u = telegram_id d) sel = []"
      by (auto simp: filter_empty_conv image_iff)
    with True show ?thesis by simp
  next
    case False
    with Cons show ?thesis by (auto simp: image_iff)
  qed
qed

lemma count_list_append: "count_list (xs @ ys) x = count_list xs x + count_list ys x"
  by (induction xs) auto

lemma find_map_same_id:
  assumes "distinct (map telegram_id us)" and "d \<in> set us"
    and "\<And>x. telegram_id (f x) = telegram_id x"
  shows "find (\<lambda>x. telegram_id x = telegram_id d) (map f us) = Some (f d)"
  using assms(1,2)
proof (induction us)
  case Nil
  then show ?case by simp
next
  case (Cons a us)
  then show ?case using assms(3) by (auto simp: image_iff)
qed

lemma distinct_filter_ids:
  "distinct (map telegram_id us) \<Longrightarrow> distinct (map telegram_id (filter P us))"
  by (induction us) (auto simp: image_iff)

lemma sweep_prefix:
  assumes dist: "distinct (map telegram_id (users_collection w))"
    and sel: "filter (expired_query e) (users_collection w) = pre @ post"
    and saved: "saved e (pre @ post) = pre"
  shows "users_collection (check_subscriptions_pass e w) =
           map (\<lambda>d. if d \<in> set pre then deactivated d else d) (users_collection w)"
    and "calls (check_subscriptions_pass e w) =
           calls w @ notices e pre @ (if post = [] then [] else [LogError])"
    and "\<forall>d\<in>set pre. get_user (check_subscriptions_pass e w) (telegram_id d) =
           Some (deactivated d)"
    and "\<forall>d\<in>set pre. count_list (calls (check_subscriptions_pass e w))
             (SendMessage (telegram_id d) MsgExpiredNotice) =
           count_list (calls w) (SendMessage (telegram_id d) MsgExpiredNotice) + 1"
proof -
  have sub: "set pre \<subseteq> set (users_collection w)"
    using sel by (metis filter_is_subset le_sup_iff set_append)
  have dpre: "distinct (map telegram_id pre)"
    using distinct_filter_ids [OF dist, of "expired_query e"] sel by simp
  then have dp: "distinct pre" by (rule distinct_map [THEN iffD1, THEN conjunct1])
  have act: "\<forall>u\<in>set pre. is_active u"
  proof
    fix u assume "u \<in> set pre"
    then have "u \<in> set (filter (expired_query e) (users_collection w))" using sel by simp
    then show "is_active u" by (simp add: expired_query_def)
  qed
  show users: "users_collection (check_subscriptions_pass e w) =
           map (\<lambda>d. if d \<in> set pre then deactivated d else d) (users_collection w)"
    using sweep_loop_unfold [of e "pre @ post" w] fold_deactivate [OF dist sub dp act]
    by (simp add: check_subscriptions_pass_def sel saved)
  show calls: "calls (check_subscriptions_pass e w) =
           calls w @ notices e pre @ (if post = [] then [] else [LogError])"
    using sweep_loop_unfold [of e "pre @ post" w]
    by (simp add: check_subscriptions_pass_def sel saved)
  show "\<forall>d\<in>set pre. get_user (check_subscriptions_pass e w) (telegram_id d) =
           Some (deactivated d)"
  proof
    fix d assume d: "d \<in> set pre"
    with sub have "d \<in> set (users_collection w)" by auto
    from find_map_same_id [OF dist this,
        of "\<lambda>x. if x \<in> set pre then deactivated x else x"] d
    show "get_user (check_subscriptions_pass e w) (telegram_id d) = Some (deactivated d)"
      by (simp add: get_user_def users)
  qed
  show "\<forall>d\<in>set pre. count_list (calls (check_subscriptions_pass e w))
             (SendMessage (telegram_id d) MsgExpiredNotice) =
           count_list (calls w) (SendMessage (telegram_id d) MsgExpiredNotice) + 1"
    using one_with_id [OF dpre]
    by (simp add: calls count_list_append count_notices)
qed

lemma saved_all: "(\<forall>d\<in>set sel. \<not> save_fails e (telegram_id d)) \<Longrightarrow> saved e sel = sel"
  by (simp add: saved_def)

lemma saved_prefix:
  "(\<forall>d\<in>set pre. \<not> save_fails e (telegram_id d)) \<Longrightarrow> save_fails e (telegram_id x) \<Longrightarrow>
   saved e (pre @ x # post) = pre"
  by (simp add: saved_def takeWhile_tail)

text \<open>
  Claim C7, as amended. Subscriber ids are unique in the users collection. The pass
  selects the subscribers with a true flag whose stored expiry is earlier than the time of
  the pass, both taken at whole milliseconds. In a pass whose writes all succeed, exactly
  the selected subscribers get the flag set to false in their stored document, each gets
  exactly one expiry notice, and this holds whatever the delivery of the notices does: a
  failed delivery is logged and the pass goes on. When the write for a subscriber fails
  after the writes for the subscribers before it succeeded, those earlier subscribers
  stay deactivated in the collection and were notified, the others are untouched, and the
  failure is logged.
\<close>

theorem sweep_pass_deactivates:
  assumes dist: "distinct (map telegram_id (users_collection w))"
  shows "((\<forall>d\<in>set (users_collection w). expired_query e d \<longrightarrow> \<not> save_fails e (telegram_id d)) \<longrightarrow>
            users_collection (check_subscriptions_pass e w) =
              map (\<lambda>d. if expired_query e d then deactivated d else d)
                (users_collection w)
          \<and> calls (check_subscriptions_pass e w) =
              calls w @ notices e (filter (expired_query e) (users_collection w))
          \<and> (\<forall>d\<in>set (users_collection w). expired_query e d \<longrightarrow>
                get_user (check_subscriptions_pass e w) (telegram_id d) =
                  Some (deactivated d)
              \<and> count_list (calls (check_subscriptions_pass e w))
                    (SendMessage (telegram_id d) MsgExpiredNotice) =
                  count_list (calls w) (SendMessage (telegram_id d) MsgExpiredNotice) + 1))
       \<and> (\<forall>pre x post.
            filter (expired_query e) (users_collection w) = pre @ x # post
            \<and> (\<forall>d\<in>set pre. \<not> save_fails e (telegram_id d)) \<and> save_fails e (telegram_id x) \<longrightarrow>
              users_collection (check_subscriptions_pass e w) =
                map (\<lambda>d. if d \<in> set pre then deactivated d else d) (users_collection w)
            \<and> calls (check_subscriptions_pass e w) = calls w @ notices e pre @ [LogError]
            \<and> (\<forall>d\<in>set pre. get_user (check_subscriptions_pass e w) (telegram_id d) =
                  Some (deactivated d)))"
proof (intro conjI allI impI)
  define sel where "sel = filter (expired_query e) (users_collection w)"
  assume ok: "\<forall>d\<in>set (users_collection w). expired_query e d \<longrightarrow> \<not> save_fails e (telegram_id d)"
  then have sv: "saved e (sel @ []) = sel" by (simp add: saved_all sel_def)
  have s: "filter (expired_query e) (users_collection w) = sel @ []" by (simp add: sel_def)
  note p = sweep_prefix [OF dist s sv]
  have "map (\<lambda>d. if d \<in> set sel then deactivated d else d) (users_collection w) =
        map (\<lambda>d. if expired_query e d then deactivated d else d) (users_collection w)"
    by (simp add: sel_def)
  with p(1) show "users_collection (check_subscriptions_pass e w) =
      map (\<lambda>d. if expired_query e d then deactivated d else d) (users_collection w)"
    by simp
  from p(2) show "calls (check_subscriptions_pass e w) =
      calls w @ notices e (filter (expired_query e) (users_collection w))"
    by (simp add: sel_def)
  from p(3,4) show "\<forall>d\<in>set (users_collection w). expired_query e d \<longrightarrow>
                get_user (check_subscriptions_pass e w) (telegram_id d) =
                  Some (deactivated d)
              \<and> count_list (calls (check_subscriptions_pass e w))
                    (SendMessage (telegram_id d) MsgExpiredNotice) =
                  count_list (calls w) (SendMessage (telegram_id d) MsgExpiredNotice) + 1"
    by (simp add: sel_def)
next
  fix pre x post
  assume h: "filter (expired_query e) (users_collection w) = pre @ x # post
            \<and> (\<forall>d\<in>set pre. \<not> save_fails e (telegram_id d)) \<and> save_fails e (telegram_id x)"
  then have sv: "saved e (pre @ x # post) = pre" by (simp add: saved_prefix)
  from h have s: "filter (expired_query e) (users_collection w) = pre @ x # post" by simp
  note p = sweep_prefix [OF dist s sv]
  from p(1) show "users_collection (check_subscriptions_pass e w) =
      map (\<lambda>d. if d \<in> set pre then deactivated d else d) (users_collection w)" .
  from p(2) show "calls (check_subscriptions_pass e w) = calls w @ notices e pre @ [LogError]"
    by simp
  from p(3) show "\<forall>d\<in>set pre. get_user (check_subscriptions_pass e w) (telegram_id d) =
      Some (deactivated d)" .
qed

lemmas sweep_defs =
  check_subscriptions_pass_def expired_query_def save_user_def log_event_def Let_def
  deactivated_def bson_user_def bson_datetime_def
  world_three_users_def user_lapsed_1_def user_current_2_def user_lapsed_3_def
  env_send_fails_def env_save_fails_def example_env_def example_user_def

theorem sweep_pass_deactivates_witness:
  "distinct (map telegram_id (users_collection world_three_users))
   \<and> \<not> save_fails env_send_fails 1 \<and> \<not> save_fails env_send_fails 3
   \<and> send_fails env_send_fails 1
   \<and> users_collection (check_subscriptions_pass env_send_fails world_three_users) =
       [user_lapsed_1\<lparr>is_active := False\<rparr>, user_current_2, user_lapsed_3\<lparr>is_active := False\<rparr>]
   \<and> calls (check_subscriptions_pass env_send_fails world_three_users) =
       [SendMessage 1 MsgExpiredNotice, LogError, SendMessage 3 MsgExpiredNotice]
   \<and> filter (expired_query env_save_fails) (users_collection world_three_users) =
       [user_lapsed_1] @ user_lapsed_3 # []
   \<and> \<not> save_fails env_save_fails 1 \<and> save_fails env_save_fails 3
   \<and> users_collection (check_subscriptions_pass env_save_fails world_three_users) =
       [user_lapsed_1\<lparr>is_active := False\<rparr>, user_current_2, user_lapsed_3]
   \<and> calls (check_subscriptions_pass env_save_fails world_three_users) =
       [SendMessage 1 MsgExpiredNotice, LogError]"
proof -
  have dist: "distinct (map telegram_id (users_collection world_three_users))"
    by (simp add: sweep_defs)
  have flags: "\<not> save_fails env_send_fails 1" "\<not> save_fails env_send_fails 3"
    "send_fails env_send_fails 1" "\<not> save_fails env_save_fails 1" "save_fails env_save_fails 3"
    by (simp_all add: sweep_defs)
  have ok: "\<forall>d\<in>set (users_collection world_three_users).
              expired_query env_send_fails d \<longrightarrow> \<not> save_fails env_send_fails (telegram_id d)"
    by (simp add: sweep_defs)
  have sel: "filter (expired_query env_save_fails) (users_collection world_three_users) =
               [user_lapsed_1] @ user_lapsed_3 # []"
    by (simp add: sweep_defs)
  have part: "filter (expired_query env_save_fails) (users_collection world_three_users) =
                [user_lapsed_1] @ user_lapsed_3 # []
              \<and> (\<forall>d\<in>set [user_lapsed_1]. \<not> save_fails env_save_fails (telegram_id d))
              \<and> save_fails env_save_fails (telegram_id user_lapsed_3)"
    using sel by (simp add: sweep_defs)
  note complete = sweep_pass_deactivates [OF dist, of env_send_fails, THEN conjunct1, THEN mp, OF ok]
  note partial = sweep_pass_deactivates [OF dist, of env_save_fails, THEN conjunct2,
      THEN spec, THEN spec, THEN spec, THEN mp, OF part]
  have u1: "users_collection (check_subscriptions_pass env_send_fails world_three_users) =
       [user_lapsed_1\<lparr>is_active := False\<rparr>, user_current_2, user_lapsed_3\<lparr>is_active := False\<rparr>]"
    unfolding complete [THEN conjunct1] by (simp add: sweep_defs)
  have c1: "calls (check_subscriptions_pass env_send_fails world_three_users) =
       [SendMessage 1 MsgExpiredNotice, LogError, SendMessage 3 MsgExpiredNotice]"
    unfolding complete [THEN conjunct2, THEN conjunct1] by (simp add: sweep_defs notices_def)
  have u2: "users_collection (check_subscriptions_pass env_save_fails world_three_users) =
       [user_lapsed_1\<lparr>is_active := False\<rparr>, user_current_2, user_lapsed_3]"
    unfolding partial [THEN conjunct1] by (simp add: sweep_defs)
  have c2: "calls (check_subscriptions_pass env_save_fails world_three_users) =
       [SendMessage 1 MsgExpiredNotice, LogError]"
    unfolding partial [THEN conjunct2, THEN conjunct1] by (simp add: sweep_defs notices_def)
  from dist flags sel u1 c1 u2 c2 show ?thesis by (intro conjI)
qed

text \<open>
  The claim as stated selects by the expiry being in the past. The store compares whole
  milliseconds: a subscriber whose stored expiry is 1 ms is not selected by a pass at
  1.8 ms, although the expiry is in the past; the pass writes nothing and sends nothing.
\<close>

theorem sweep_pass_below_one_millisecond:
  "is_active user_just_lapsed
   \<and> subscription_end user_just_lapsed = Some 1000
   \<and> (1000 :: int) < now env_just_after
   \<and> check_subscriptions_pass env_just_after world_just_lapsed = world_just_lapsed"
  by (simp add: check_subscriptions_pass_def expired_query_def bson_datetime_def
      world_just_lapsed_def user_just_lapsed_def env_just_after_def example_env_def
      example_user_def)

section \<open>Activation flag and expiry\<close>

lemma plan_duration_positive: "map_of SUBSCRIPTION_PLANS k = Some p \<Longrightarrow> 0 < duration p"
  by (auto simp: SUBSCRIPTION_PLANS_def split: if_splits)

lemma bson_datetime_bounds: "bson_datetime t \<le> t" "t < bson_datetime t + 1000"
  unfolding bson_datetime_def by presburger+

lemma bson_datetime_hours:
  "bson_datetime (t + timedelta_hours h) = bson_datetime t + timedelta_hours h"
proof -
  have "t + h * 3600000000 = t + (h * 3600000) * 1000" by simp
  then have "(t + h * 3600000000) div 1000 = t div 1000 + h * 3600000"
    by (simp only: div_mult_self1 [of 1000 t "h * 3600000", simplified])
  then show ?thesis
    by (simp add: bson_datetime_def timedelta_hours_def algebra_simps)
qed

lemma update_subscription_result:
  assumes "update_subscription e u k w = Inr (u', w')"
  shows "is_active u' \<and> is_subscription_active e u'
         \<and> get_user w' (telegram_id u) = Some (bson_user u')
         \<and> is_active (bson_user u') \<and> is_subscription_active e (bson_user u')"
proof -
  from assms obtain p where p: "map_of SUBSCRIPTION_PLANS k = Some p"
    and u': "u' = u\<lparr>subscription_type := Some (plan_name p),
                     subscription_end := Some (now e + timedelta_hours (duration p)),
                     is_active := True\<rparr>"
    and w': "w' = save_user u' w"
    by (auto simp: update_subscription_def Let_def split: option.splits)
  from plan_duration_positive [OF p] have d: "1000 \<le> timedelta_hours (duration p)"
    by (simp add: timedelta_hours_def)
  have "now e < bson_datetime (now e + timedelta_hours (duration p))"
    using d bson_datetime_bounds(2) [of "now e"] by (simp add: bson_datetime_hours)
  with d u' w' show ?thesis
    by (simp add: is_subscription_active_def get_user_save_user)
qed

text \<open>
  Claim C3, as amended. Right after \<^verbatim>\<open>update_subscription\<close> the subscriber's flag is
  true and the expiry is in the future of the time of the grant, in the object returned
  and in the stored document, which holds the expiry at whole milliseconds. Right after a
  sweep pass whose writes all succeed (ids unique), no stored subscriber has a true flag
  with an expiry earlier than the time of the pass, both taken at whole milliseconds, and
  the pass has changed nothing but the documents of the subscribers it selected.
\<close>

theorem subscription_flag_after_grant_and_sweep:
  "(\<forall>u' w'. update_subscription e u k w = Inr (u', w') \<longrightarrow>
      is_active u' \<and> is_subscription_active e u'
      \<and> get_user w' (telegram_id u) = Some (bson_user u')
      \<and> is_active (bson_user u') \<and> is_subscription_active e (bson_user u'))
   \<and> (distinct (map telegram_id (users_collection w))
        \<and> (\<forall>d\<in>set (users_collection w). expired_query e d \<longrightarrow> \<not> save_fails e (telegram_id d))
      \<longrightarrow> (\<forall>d\<in>set (users_collection (check_subscriptions_pass e w)).
               is_active d \<longrightarrow>
                 (case subscription_end d of
                    None \<Rightarrow> True
                  | Some t \<Rightarrow> bson_datetime (now e) \<le> bson_datetime t))
          \<and> users_collection (check_subscriptions_pass e w) =
              map (\<lambda>d. if expired_query e d then deactivated d else d) (users_collection w))"
proof (intro conjI allI impI)
  fix u' w'
  assume "update_subscription e u k w = Inr (u', w')"
  from update_subscription_result [OF this]
  show "is_active u'" "is_subscription_active e u'"
    "get_user w' (telegram_id u) = Some (bson_user u')"
    "is_active (bson_user u')" "is_subscription_active e (bson_user u')"
    by simp_all
next
  assume h: "distinct (map telegram_id (users_collection w))
        \<and> (\<forall>d\<in>set (users_collection w). expired_query e d \<longrightarrow> \<not> save_fails e (telegram_id d))"
  then have sv: "saved e (filter (expired_query e) (users_collection w) @ []) =
                   filter (expired_query e) (users_collection w)"
    by (simp add: saved_all)
  from h have dist: "distinct (map telegram_id (users_collection w))" by simp
  from sweep_prefix(1) [OF dist _ sv]
  show users: "users_collection (check_subscriptions_pass e w) =
      map (\<lambda>d. if expired_query e d then deactivated d else d) (users_collection w)"
    by simp
  show "\<forall>d\<in>set (users_collection (check_subscriptions_pass e w)).
          is_active d \<longrightarrow>
            (case subscription_end d of
               None \<Rightarrow> True
             | Some t \<Rightarrow> bson_datetime (now e) \<le> bson_datetime t)"
    unfolding users by (auto simp: expired_query_def split: option.splits)
qed

theorem subscription_flag_after_grant_and_sweep_witness:
  "update_subscription (example_env\<lparr>now := 1234\<rparr>) new_user ''6_hours'' world_new_user =
     Inr (new_user\<lparr>subscription_type := Some ''6 hours'', subscription_end := Some 21600001234,
                   is_active := True\<rparr>,
          world_new_user\<lparr>users_collection :=
            [new_user\<lparr>subscription_type := Some ''6 hours'',
                      subscription_end := Some 21600001000, is_active := True\<rparr>]\<rparr>)
   \<and> is_subscription_active (example_env\<lparr>now := 1234\<rparr>)
        (bson_user (new_user\<lparr>subscription_type := Some ''6 hours'',
                             subscription_end := Some 21600001234, is_active := True\<rparr>))
   \<and> distinct (map telegram_id (users_collection world_three_users))
   \<and> \<not> save_fails example_env 1 \<and> \<not> save_fails example_env 3
   \<and> map (\<lambda>d. (telegram_id d, is_active d, subscription_end d))
        (users_collection (check_subscriptions_pass example_env world_three_users)) =
       [(1, False, Some 100000), (2, True, Some 1000000), (3, False, Some 150000)]"
proof -
  have grant: "update_subscription (example_env\<lparr>now := 1234\<rparr>) new_user ''6_hours'' world_new_user =
     Inr (new_user\<lparr>subscription_type := Some ''6 hours'', subscription_end := Some 21600001234,
                   is_active := True\<rparr>,
          world_new_user\<lparr>users_collection :=
            [new_user\<lparr>subscription_type := Some ''6 hours'',
                      subscription_end := Some 21600001000, is_active := True\<rparr>]\<rparr>)"
    by (simp add: update_subscription_def SUBSCRIPTION_PLANS_def timedelta_hours_def
        new_user_def world_new_user_def save_user_def Let_def bson_user_def bson_datetime_def)
  note t = subscription_flag_after_grant_and_sweep
  from t [of "example_env\<lparr>now := 1234\<rparr>" new_user "''6_hours''" world_new_user,
      THEN conjunct1, THEN spec, THEN spec, THEN mp, OF grant]
  have active: "is_subscription_active (example_env\<lparr>now := 1234\<rparr>)
        (bson_user (new_user\<lparr>subscription_type := Some ''6 hours'',
                             subscription_end := Some 21600001234, is_active := True\<rparr>))"
    by simp
  have dist: "distinct (map telegram_id (users_collection world_three_users))"
    by (simp add: sweep_defs)
  have flags: "\<not> save_fails example_env 1" "\<not> save_fails example_env 3"
    by (simp_all add: sweep_defs)
  have ok: "distinct (map telegram_id (users_collection world_three_users))
        \<and> (\<forall>d\<in>set (users_collection world_three_users).
              expired_query example_env d \<longrightarrow> \<not> save_fails example_env (telegram_id d))"
    by (simp add: sweep_defs)
  note swept = t [of example_env new_user "''6_hours''" world_three_users,
      THEN conjunct2, THEN mp, OF ok, THEN conjunct2]
  have users: "map (\<lambda>d. (telegram_id d, is_active d, subscription_end d))
        (users_collection (check_subscriptions_pass example_env world_three_users)) =
       [(1, False, Some 100000), (2, True, Some 1000000), (3, False, Some 150000)]"
    unfolding swept by (simp add: sweep_defs)
  from grant active dist flags users show ?thesis by (intro conjI)
qed

text \<open>
  The claim as stated fails between passes: a subscription granted at time 0 for 6 hours
  has lapsed one minute after its expiry; a purchase at that time writes the user
  document (the cursor), and after that write the flag is true with the expiry in the
  past.
\<close>

theorem lapsed_flag_after_purchase:
  "(case update_subscription (example_env\<lparr>now := 0\<rparr>) new_user ''6_hours'' world_new_user of
      Inl err \<Rightarrow> False
    | Inr (u1, w1) \<Rightarrow>
        map (\<lambda>d. (is_active d, subscription_end d,
                   is_subscription_active (example_env\<lparr>now := 21660000000\<rparr>) d))
          (users_collection
             (snd (buy_number (example_env\<lparr>now := 21660000000\<rparr>) ''AC1'' ''tok1'' ''+1555B'' 1 w1)))
        = [(True, Some 21600000000, False)])"
  by (simp add: update_subscription_def SUBSCRIPTION_PLANS_def timedelta_hours_def
      new_user_def world_new_user_def buy_number_def get_user_def get_valid_credentials_def
      py_mod_def save_user_def log_event_def Let_def is_subscription_active_def
      example_env_def cred1_def cred2_def bson_user_def bson_datetime_def)

end
